theory Spec2Isabelle
  imports Main
begin

section \<open>Python values\<close>

text \<open>
  The query builder of cutevariant (\<open>cutevariant/core/querybuilder.py\<close>) works on untyped
  Python data: a filter tree is a nest of dicts and lists, a field is a string or a tuple.
  The values are modelled by one datatype. A dict is an association list in insertion
  order (Python keeps it); its keys are strings, as in every tree the parser builds, and
  no key occurs twice. A float is carried as the text \<open>str()\<close> gives for it. Text is a list of 8-bit characters;
  the case mapping and the character classes below are those of ASCII.
\<close>

datatype pyval =
    PNone
  | PBool bool
  | PInt int
  | PFloat string
  | PStr string
  | PTuple "pyval list"
  | PList "pyval list"
  | PDict "(string \<times> pyval) list"

text \<open>Every exception the modelled functions can raise is a value.\<close>

datatype error =
    KeyError string
  | TypeError
  | ValueError
  | AttributeError
  | IndexError
  | UnboundLocalError
  | VQLSyntaxError string
  | OperationalError string
  | DatabaseError string
  | OutsideModel

definition sq :: char where "sq = CHR 0x27"
definition dq :: char where "dq = CHR 0x22"
definition bq :: char where "bq = CHR 0x60"

subsection \<open>Truth value, length, iteration, lookup\<close>

fun py_truthy :: "pyval \<Rightarrow> bool" where
  "py_truthy PNone = False"
| "py_truthy (PBool b) = b"
| "py_truthy (PInt i) = (i \<noteq> 0)"
| "py_truthy (PFloat t) = (t \<noteq> ''0.0'' \<and> t \<noteq> ''-0.0'')"
| "py_truthy (PStr s) = (s \<noteq> [])"
| "py_truthy (PTuple xs) = (xs \<noteq> [])"
| "py_truthy (PList xs) = (xs \<noteq> [])"
| "py_truthy (PDict kvs) = (kvs \<noteq> [])"

fun py_len :: "pyval \<Rightarrow> error + nat" where
  "py_len (PStr s) = Inr (length s)"
| "py_len (PTuple xs) = Inr (length xs)"
| "py_len (PList xs) = Inr (length xs)"
| "py_len (PDict kvs) = Inr (length kvs)"
| "py_len _ = Inl TypeError"

text \<open>\<open>for x in v\<close>: the elements of a list or tuple, the keys of a dict, the characters of
  a string; anything else is not iterable.\<close>

fun py_iter :: "pyval \<Rightarrow> error + pyval list" where
  "py_iter (PList xs) = Inr xs"
| "py_iter (PTuple xs) = Inr xs"
| "py_iter (PDict kvs) = Inr (map (\<lambda>kv. PStr (fst kv)) kvs)"
| "py_iter (PStr s) = Inr (map (\<lambda>c. PStr [c]) s)"
| "py_iter _ = Inl TypeError"

text \<open>\<open>node[key]\<close> with a string key: a dict looks the key up, a sequence refuses a string
  index, the other values are not subscriptable.\<close>

fun py_getitem :: "pyval \<Rightarrow> string \<Rightarrow> error + pyval" where
  "py_getitem (PDict kvs) k = (case map_of kvs k of None \<Rightarrow> Inl (KeyError k) | Some v \<Rightarrow> Inr v)"
| "py_getitem _ k = Inl TypeError"

subsection \<open>Text\<close>

fun join :: "string \<Rightarrow> string list \<Rightarrow> string" where
  "join sep [] = []"
| "join sep [x] = x"
| "join sep (x # y # ys) = x @ sep @ join sep (y # ys)"

text \<open>\<open>sub in s\<close> on two strings: \<open>sub\<close> occurs in \<open>s\<close> as a contiguous run.\<close>

fun starts_with :: "string \<Rightarrow> string \<Rightarrow> bool" where
  "starts_with [] s = True"
| "starts_with (p # ps) [] = False"
| "starts_with (p # ps) (c # cs) = (p = c \<and> starts_with ps cs)"

fun str_contains :: "string \<Rightarrow> string \<Rightarrow> bool" where
  "str_contains sub [] = (sub = [])"
| "str_contains sub (c # cs) = (starts_with sub (c # cs) \<or> str_contains sub cs)"

definition upper_char :: "char \<Rightarrow> char" where
  "upper_char c = (let n = (of_char c :: nat) in if 97 \<le> n \<and> n \<le> 122 then char_of (n - 32) else c)"

definition py_upper :: "string \<Rightarrow> string" where
  "py_upper s = map upper_char s"

text \<open>The class \<open>\w\<close> of the regular expressions: letters, digits and the underscore.\<close>

definition is_word :: "char \<Rightarrow> bool" where
  "is_word c = (let n = (of_char c :: nat) in
     (48 \<le> n \<and> n \<le> 57) \<or> (65 \<le> n \<and> n \<le> 90) \<or> (97 \<le> n \<and> n \<le> 122) \<or> n = 95)"

subsection \<open>\<open>str()\<close> and \<open>repr()\<close>\<close>

function str_nat :: "nat \<Rightarrow> string" where
  "str_nat n = (if n < 10 then [char_of (48 + n)] else str_nat (n div 10) @ [char_of (48 + n mod 10)])"
  by pat_completeness auto
termination
  by (relation "measure id") auto

declare str_nat.simps [simp del]

definition str_int :: "int \<Rightarrow> string" where
  "str_int i = (if i < 0 then CHR ''-'' # str_nat (nat (- i)) else str_nat (nat i))"

definition hex_digit :: "nat \<Rightarrow> char" where
  "hex_digit n = (if n < 10 then char_of (48 + n) else char_of (87 + n))"

text \<open>\<open>repr\<close> of a string: double quotes when the text has a single quote and no double
  quote, single quotes otherwise; the quote in use and the backslash are escaped, tab,
  newline and return are written \<open>\t\<close>, \<open>\n\<close>, \<open>\r\<close>, and the other unprintable characters
  as \<open>\xhh\<close>.\<close>

definition repr_char :: "char \<Rightarrow> char \<Rightarrow> string" where
  "repr_char q c = (let n = (of_char c :: nat) in
     if c = q \<or> n = 92 then [CHR 0x5C, c]
     else if n = 9 then [CHR 0x5C, CHR ''t'']
     else if n = 10 then [CHR 0x5C, CHR ''n'']
     else if n = 13 then [CHR 0x5C, CHR ''r'']
     else if n < 32 \<or> n = 127 \<or> (128 \<le> n \<and> n \<le> 160) \<or> n = 173
       then [CHR 0x5C, CHR ''x'', hex_digit (n div 16), hex_digit (n mod 16)]
     else [c])"

definition repr_str :: "string \<Rightarrow> string" where
  "repr_str s = (let q = (if sq \<in> set s \<and> dq \<notin> set s then dq else sq)
     in q # concat (map (repr_char q) s) @ [q])"

fun py_repr :: "pyval \<Rightarrow> string" where
  "py_repr PNone = ''None''"
| "py_repr (PBool b) = (if b then ''True'' else ''False'')"
| "py_repr (PInt i) = str_int i"
| "py_repr (PFloat t) = t"
| "py_repr (PStr s) = repr_str s"
| "py_repr (PTuple xs) =
     (case xs of [x] \<Rightarrow> ''('' @ py_repr x @ '',)''
      | _ \<Rightarrow> ''('' @ join '', '' (map py_repr xs) @ '')'')"
| "py_repr (PList xs) = ''['' @ join '', '' (map py_repr xs) @ '']''"
| "py_repr (PDict kvs) =
     ''{'' @ join '', '' (map (\<lambda>kv. repr_str (fst kv) @ '': '' @ py_repr (snd kv)) kvs) @ ''}''"

text \<open>\<open>str(v)\<close>, which is also what an f-string and \<open>%s\<close> insert.\<close>

fun py_str :: "pyval \<Rightarrow> string" where
  "py_str (PStr s) = s"
| "py_str v = py_repr v"

section \<open>The filter tree\<close>

subsection \<open>\<open>filters_to_flat\<close>\<close>

text \<open>
  \<^verbatim>\<open>
  def recursive_generator(filters):
      if isinstance(filters, dict) and len(filters) == 3:
          yield filters
      if isinstance(filters, dict):
          for i in filters:
              yield from recursive_generator(filters[i])
      if isinstance(filters, list):
          for i in filters:
              yield from recursive_generator(i)
  return list(recursive_generator(filters))
  \<close>
\<close>

fun recursive_generator :: "pyval \<Rightarrow> pyval list" where
  "recursive_generator (PDict kvs) =
     (if length kvs = 3 then [PDict kvs] else [])
       @ concat (map (\<lambda>kv. recursive_generator (snd kv)) kvs)"
| "recursive_generator (PList xs) = concat (map recursive_generator xs)"
| "recursive_generator _ = []"

definition filters_to_flat :: "pyval \<Rightarrow> pyval list" where
  "filters_to_flat filters = recursive_generator filters"

subsection \<open>The tree of the specification and its Python form\<close>

text \<open>
  The specification describes a filter tree as a tagged union: a \<open>LogicNode\<close> with an
  operator and an ordered sequence of children, or a \<open>ConditionNode\<close> with a field, a
  comparison operator and a value. A field is a name (bare or \<open>table.field\<close>) or a
  function call \<open>(function, argument, field)\<close>; a value is a scalar, a sequence of scalars
  or a reference to a named set. \<open>to_py\<close> gives the dict the parser builds for a node.
\<close>

datatype logic_op = AND | OR

datatype field_ref = FieldName string | FieldFunc string string string

datatype scalar = SInt int | SFloat string | SStr string | SBool bool

datatype cond_value =
    VScalar scalar
  | VTuple "scalar list"
  | VList "scalar list"
  | VSet string

datatype filter_node =
    LogicNode logic_op "filter_node list"
  | ConditionNode field_ref string cond_value

fun logic_op_name :: "logic_op \<Rightarrow> string" where
  "logic_op_name AND = ''AND''"
| "logic_op_name OR = ''OR''"

fun field_py :: "field_ref \<Rightarrow> pyval" where
  "field_py (FieldName n) = PStr n"
| "field_py (FieldFunc f a n) = PTuple [PStr f, PStr a, PStr n]"

fun scalar_py :: "scalar \<Rightarrow> pyval" where
  "scalar_py (SInt i) = PInt i"
| "scalar_py (SFloat t) = PFloat t"
| "scalar_py (SStr s) = PStr s"
| "scalar_py (SBool b) = PBool b"

fun value_py :: "cond_value \<Rightarrow> pyval" where
  "value_py (VScalar x) = scalar_py x"
| "value_py (VTuple xs) = PTuple (map scalar_py xs)"
| "value_py (VList xs) = PList (map scalar_py xs)"
| "value_py (VSet n) = PTuple [PStr ''set'', PStr n]"

definition condition_dict :: "pyval \<Rightarrow> pyval \<Rightarrow> pyval \<Rightarrow> pyval" where
  "condition_dict f op v = PDict [(''field'', f), (''operator'', op), (''value'', v)]"

fun to_py :: "filter_node \<Rightarrow> pyval" where
  "to_py (LogicNode op children) = PDict [(logic_op_name op, PList (map to_py children))]"
| "to_py (ConditionNode f op v) = condition_dict (field_py f) (PStr op) (value_py v)"

text \<open>The leaf conditions of a tree in pre-order, and their number.\<close>

fun leaves :: "filter_node \<Rightarrow> filter_node list" where
  "leaves (LogicNode op children) = concat (map leaves children)"
| "leaves (ConditionNode f op v) = [ConditionNode f op v]"

fun count_leaves :: "filter_node \<Rightarrow> nat" where
  "count_leaves (LogicNode op children) = sum_list (map count_leaves children)"
| "count_leaves (ConditionNode f op v) = 1"

section \<open>Fields\<close>

text \<open>
  \<^verbatim>\<open>
  def field_function_to_sql(field_function: tuple, use_as=False):
      func_name, arg_name, field_name = field_function
      if use_as:
          suffix = f" AS '{func_name}.{arg_name}.{field_name}'"
      else:
          suffix = ""
      if field_name:
          return f"`{func_name}_{arg_name}`.`{field_name}`" + suffix
      else:
          return f"`{func_name}_{arg_name}`" + suffix
  \<close>
  Unpacking a tuple that has not exactly three items raises ValueError.
\<close>

fun field_function_to_sql :: "pyval list \<Rightarrow> bool \<Rightarrow> error + string" where
  "field_function_to_sql [func_name, arg_name, field_name] use_as =
     (let suffix = (if use_as
            then '' AS '' @ [sq] @ py_str func_name @ ''.'' @ py_str arg_name @ ''.''
                   @ py_str field_name @ [sq]
            else [])
      in if py_truthy field_name
         then Inr ([bq] @ py_str func_name @ ''_'' @ py_str arg_name @ [bq] @ ''.''
                    @ [bq] @ py_str field_name @ [bq] @ suffix)
         else Inr ([bq] @ py_str func_name @ ''_'' @ py_str arg_name @ [bq] @ suffix))"
| "field_function_to_sql field_function use_as = Inl ValueError"

text \<open>
  \<^verbatim>\<open>
  def set_function_to_sql(field_function: tuple):
      func_name, arg_name = field_function
      q = f"(SELECT value FROM sets WHERE name = '{arg_name}')"
      return q
  \<close>
\<close>

fun set_function_to_sql :: "pyval list \<Rightarrow> error + string" where
  "set_function_to_sql [func_name, arg_name] =
     Inr (''(SELECT value FROM sets WHERE name = '' @ [sq] @ py_str arg_name @ [sq] @ '')'')"
| "set_function_to_sql field_function = Inl ValueError"

text \<open>
  \<open>re.match(r"^(\w+)\.(\w+)", field)\<close>: the longest run of word characters at the start
  of the text, not empty, then a dot, then the longest run of word characters after it,
  not empty. The first group cannot stop earlier than the longest run, for the next
  character would then be a word character and not the dot. What follows the second
  group is ignored.
\<close>

definition match_table_field :: "string \<Rightarrow> (string \<times> string) option" where
  "match_table_field s =
     (let table = takeWhile is_word s in
      case dropWhile is_word s of
        [] \<Rightarrow> None
      | c # rest \<Rightarrow>
          if table \<noteq> [] \<and> c = CHR ''.'' \<and> takeWhile is_word rest \<noteq> []
          then Some (table, takeWhile is_word rest)
          else None)"

definition quoted_column :: "string \<Rightarrow> string \<Rightarrow> string" where
  "quoted_column table field = [bq] @ table @ [bq] @ ''.'' @ [bq] @ field @ [bq]"

text \<open>
  \<^verbatim>\<open>
  def fields_to_sql(field, default_tables={}, use_as=False):
      if isinstance(field, tuple):
          return field_function_to_sql(field, use_as)
      match = re.match(r"^(\w+)\.(\w+)", field)
      if match:
          table = match[1]
          field = match[2]
      else:
          if field in default_tables.keys():
              table = default_tables[field]
          else:
              return f"`{field}`"
      return f"`{table}`.`{field}`"
  \<close>
  \<open>default_tables\<close> is the catalog: it maps a field name to the name of its table.
  \<open>re.match\<close> raises TypeError on a value that is no string.
\<close>

fun fields_to_sql :: "pyval \<Rightarrow> (string \<rightharpoonup> string) \<Rightarrow> bool \<Rightarrow> error + string" where
  "fields_to_sql (PTuple xs) default_tables use_as = field_function_to_sql xs use_as"
| "fields_to_sql (PStr s) default_tables use_as =
     (case match_table_field s of
        Some (table, field) \<Rightarrow> Inr (quoted_column table field)
      | None \<Rightarrow>
          (case default_tables s of
             Some table \<Rightarrow> Inr (quoted_column table s)
           | None \<Rightarrow> Inr ([bq] @ s @ [bq])))"
| "fields_to_sql field default_tables use_as = Inl TypeError"

section \<open>\<open>filters_to_sql\<close>\<close>

text \<open>\<open>[f(x) for x in xs]\<close> where \<open>f\<close> may raise: the first error in list order wins.\<close>

fun sequence :: "(error + 'a) list \<Rightarrow> error + 'a list" where
  "sequence [] = Inr []"
| "sequence (Inl e # rs) = Inl e"
| "sequence (Inr x # rs) = (case sequence rs of Inl e \<Rightarrow> Inl e | Inr xs \<Rightarrow> Inr (x # xs))"

text \<open>\<open>value.translate(str.maketrans("'\"", "%%"))\<close>\<close>

definition translate_quotes :: "string \<Rightarrow> string" where
  "translate_quotes s = map (\<lambda>c. if c = sq \<or> c = dq then CHR ''%'' else c) s"

text \<open>\<open>if isinstance(value, str): value = f"'{value}'"\<close>\<close>

fun quote_string :: "pyval \<Rightarrow> pyval" where
  "quote_string (PStr s) = PStr ([sq] @ s @ [sq])"
| "quote_string value = value"

text \<open>
  \<^verbatim>\<open>
  if isinstance(value, tuple):
      if value[0] == SET_FUNC_NAME:
          value = set_function_to_sql(value)
  \<close>
\<close>

fun set_value :: "pyval \<Rightarrow> error + pyval" where
  "set_value (PTuple []) = Inl IndexError"
| "set_value (PTuple (x # xs)) =
     (if x = PStr ''set''
      then (case set_function_to_sql (x # xs) of Inl e \<Rightarrow> Inl e | Inr q \<Rightarrow> Inr (PStr q))
      else Inr (PTuple (x # xs)))"
| "set_value value = Inr value"

text \<open>
  \<^verbatim>\<open>
  if operator == "~":
      operator = "REGEXP"
  if operator == "HAS":
      operator = "LIKE"
      value = "'" + value.translate(str.maketrans("'\"", "%%")) + "'"
  \<close>
  Only a string has \<open>translate\<close>.
\<close>

definition sql_operator :: "string \<Rightarrow> string" where
  "sql_operator operator =
     (if operator = ''~'' then ''REGEXP'' else if operator = ''HAS'' then ''LIKE'' else operator)"

fun has_value :: "string \<Rightarrow> pyval \<Rightarrow> error + pyval" where
  "has_value operator value =
     (if operator = ''HAS''
      then (case value of
              PStr s \<Rightarrow> Inr (PStr ([sq] @ translate_quotes s @ [sq]))
            | _ \<Rightarrow> Inl AttributeError)
      else Inr value)"

text \<open>
  \<^verbatim>\<open>
  if operator in ("IN", "NOT IN"):
      pass
  elif isinstance(value, list):
      value = "(" + ",".join(value) + ")"
  else:
      value = str(value)
  \<close>
  \<open>join\<close> raises TypeError on an item that is no string.
\<close>

fun str_items :: "pyval list \<Rightarrow> error + string list" where
  "str_items [] = Inr []"
| "str_items (PStr s # xs) = (case str_items xs of Inl e \<Rightarrow> Inl e | Inr ss \<Rightarrow> Inr (s # ss))"
| "str_items (x # xs) = Inl TypeError"

fun final_value :: "string \<Rightarrow> pyval \<Rightarrow> error + pyval" where
  "final_value operator value =
     (if operator = ''IN'' \<or> operator = ''NOT IN'' then Inr value
      else (case value of
              PList xs \<Rightarrow>
                (case str_items xs of
                   Inl e \<Rightarrow> Inl e
                 | Inr ss \<Rightarrow> Inr (PStr (''('' @ join '','' ss @ '')'')))
            | _ \<Rightarrow> Inr (PStr (py_str value))))"

text \<open>
  The branch \<open>if is_field(node)\<close> of \<open>recursive\<close>, in the order of the source: the three
  items are read, the operator is uppercased (only a string has \<open>upper\<close>), the value is
  prepared, the field is resolved, and the three texts are joined by
  \<open>"%s %s %s" % (field, operator, value)\<close>.
\<close>

definition render_condition ::
  "(string \<rightharpoonup> string) \<Rightarrow> pyval \<Rightarrow> string \<Rightarrow> pyval \<Rightarrow> error + string" where
  "render_condition default_tables field operator value =
     (case set_value (quote_string value) of Inl e \<Rightarrow> Inl e | Inr value1 \<Rightarrow>
      case has_value operator value1 of Inl e \<Rightarrow> Inl e | Inr value2 \<Rightarrow>
      case fields_to_sql field default_tables False of Inl e \<Rightarrow> Inl e | Inr field_sql \<Rightarrow>
      case final_value (sql_operator operator) value2 of Inl e \<Rightarrow> Inl e | Inr value3 \<Rightarrow>
        Inr (field_sql @ '' '' @ sql_operator operator @ '' '' @ py_str value3))"

definition condition_to_sql :: "(string \<rightharpoonup> string) \<Rightarrow> pyval \<Rightarrow> error + string" where
  "condition_to_sql default_tables node =
     (case py_getitem node ''field'' of Inl e \<Rightarrow> Inl e | Inr field \<Rightarrow>
      case py_getitem node ''value'' of Inl e \<Rightarrow> Inl e | Inr value \<Rightarrow>
      case py_getitem node ''operator'' of Inl e \<Rightarrow> Inl e | Inr op \<Rightarrow>
      case op of
        PStr opname \<Rightarrow> render_condition default_tables field (py_upper opname) value
      | _ \<Rightarrow> Inl AttributeError)"

text \<open>
  \<^verbatim>\<open>
  def is_field(node):
      return True if len(node) == 3 else False

  def recursive(node):
      if not node:
          return ""
      if is_field(node):
          ...
      else:
          logic_op = list(node.keys())[0]
          out = [recursive(child) for child in node[logic_op]]
          if len(out) == 1:
              return f" {logic_op} ".join(out)
          else:
              return "(" + f" {logic_op} ".join(out) + ")"
  \<close>
  Only a dict has \<open>keys\<close>. The node is not empty there, so it has a first key, and
  \<open>node[logic_op]\<close> is the value stored with it.
\<close>

definition is_field :: "pyval \<Rightarrow> error + bool" where
  "is_field node = (case py_len node of Inl e \<Rightarrow> Inl e | Inr n \<Rightarrow> Inr (n = 3))"

function filters_to_sql_recursive :: "(string \<rightharpoonup> string) \<Rightarrow> pyval \<Rightarrow> error + string" where
  "filters_to_sql_recursive default_tables node =
     (if \<not> py_truthy node then Inr []
      else case is_field node of
        Inl e \<Rightarrow> Inl e
      | Inr True \<Rightarrow> condition_to_sql default_tables node
      | Inr False \<Rightarrow>
          (case node of
             PDict kvs \<Rightarrow>
               (let logic_op = fst (hd kvs) in
                case py_iter (snd (hd kvs)) of
                  Inl e \<Rightarrow> Inl e
                | Inr children \<Rightarrow>
                    (case sequence (map (filters_to_sql_recursive default_tables) children) of
                       Inl e \<Rightarrow> Inl e
                     | Inr out \<Rightarrow>
                         if length out = 1
                         then Inr (join ('' '' @ logic_op @ '' '') out)
                         else Inr (''('' @ join ('' '' @ logic_op @ '' '') out @ '')'')))
           | _ \<Rightarrow> Inl AttributeError))"
  by pat_completeness auto
termination
proof (relation "measure (\<lambda>(default_tables, node). size node)")
  show "wf (measure (\<lambda>(default_tables, node). size node))"
    by simp
next
  fix default_tables :: "string \<rightharpoonup> string" and node :: pyval and b :: bool
    and kvs :: "(string \<times> pyval) list" and logic_op :: string
    and children :: "pyval list" and child :: pyval
  assume truthy: "\<not> \<not> py_truthy node" and node: "node = PDict kvs"
    and iter: "py_iter (snd (hd kvs)) = Inr children" and child: "child \<in> set children"
  from truthy node obtain k v rest where kvs: "kvs = (k, v) # rest"
    by (cases kvs) auto
  have "size child \<le> size v"
  proof (cases v)
    case (PList xs)
    with iter kvs child have "child \<in> set xs" by simp
    then have "size child \<le> size_list size xs" by (simp add: size_list_estimation')
    with PList show ?thesis by simp
  next
    case (PTuple xs)
    with iter kvs child have "child \<in> set xs" by simp
    then have "size child \<le> size_list size xs" by (simp add: size_list_estimation')
    with PTuple show ?thesis by simp
  next
    case (PDict kvs')
    with iter kvs child show ?thesis by auto
  next
    case (PStr s)
    with iter kvs child show ?thesis by auto
  qed (use iter kvs in simp_all)
  then show "((default_tables, child), (default_tables, node))
               \<in> measure (\<lambda>(default_tables, node). size node)"
    using node kvs by simp
qed

declare filters_to_sql_recursive.simps [simp del]

text \<open>\<open>def filters_to_sql(filters, default_tables={}): ... return recursive(filters)\<close>\<close>

definition filters_to_sql :: "pyval \<Rightarrow> (string \<rightharpoonup> string) \<Rightarrow> error + string" where
  "filters_to_sql filters default_tables = filters_to_sql_recursive default_tables filters"

section \<open>\<open>build_query\<close>\<close>

text \<open>
  \<open>build_query\<close> starts from an empty text and appends to it, one clause after the other
  (\<open>sql_query += ...\<close>). The model keeps the clauses it appends, in order; the SQL text
  is their concatenation.
\<close>

datatype clause =
    Select "string list"
  | From
  | JoinAnnotations
  | JoinSelection string
  | JoinSample string int
  | Where string
  | GroupBy "string list"
  | OrderBy string string
  | Limit string string

definition sample_alias :: "string \<Rightarrow> string" where
  "sample_alias sample_name = [bq] @ ''sample_'' @ sample_name @ [bq]"

fun render :: "clause \<Rightarrow> string" where
  "render (Select sql_fields) = ''SELECT '' @ join '','' sql_fields @ '' ''"
| "render From = ''FROM variants''"
| "render JoinAnnotations = '' LEFT JOIN annotations ON annotations.variant_id = variants.id''"
| "render (JoinSelection source) =
     '' INNER JOIN selection_has_variant sv ON sv.variant_id = variants.id ''
       @ ''INNER JOIN selections s ON s.id = sv.selection_id AND s.name = ''
       @ [sq] @ source @ [sq]"
| "render (JoinSample sample_name sample_id) =
     '' INNER JOIN sample_has_variant '' @ sample_alias sample_name
       @ '' ON '' @ sample_alias sample_name @ ''.variant_id = variants.id AND ''
       @ sample_alias sample_name @ ''.sample_id = '' @ str_int sample_id"
| "render (Where where_clause) = '' WHERE '' @ where_clause"
| "render (GroupBy group_by) = '' GROUP BY '' @ join '','' group_by"
| "render (OrderBy order_by orientation) = '' ORDER BY '' @ order_by @ '' '' @ orientation"
| "render (Limit limit offset) = '' LIMIT '' @ limit @ '' OFFSET '' @ offset"

text \<open>
  \<open>"id" in col\<close>: on a string, \<open>id\<close> occurs in it; on a tuple or a list, one item equals
  \<open>"id"\<close>; on a dict, \<open>"id"\<close> is a key; the other values are not iterable.
\<close>

fun contains_id :: "pyval \<Rightarrow> error + bool" where
  "contains_id (PStr s) = Inr (str_contains ''id'' s)"
| "contains_id (PTuple xs) = Inr (PStr ''id'' \<in> set xs)"
| "contains_id (PList xs) = Inr (PStr ''id'' \<in> set xs)"
| "contains_id (PDict kvs) = Inr (''id'' \<in> set (map fst kvs))"
| "contains_id col = Inl TypeError"

text \<open>
  \<^verbatim>\<open>
  sql_fields = ["`variants`.`id`"] + [
      fields_to_sql(col, default_tables, use_as=True)
      for col in fields
      if "id" not in col
  ]
  if group_by:
      sql_fields.insert(1, "COUNT(`variants`.`id`) as 'count'")
  \<close>
\<close>

fun requested_columns :: "pyval list \<Rightarrow> (string \<rightharpoonup> string) \<Rightarrow> error + string list" where
  "requested_columns [] default_tables = Inr []"
| "requested_columns (col # fields) default_tables =
     (case contains_id col of
        Inl e \<Rightarrow> Inl e
      | Inr True \<Rightarrow> requested_columns fields default_tables
      | Inr False \<Rightarrow>
          (case fields_to_sql col default_tables True of
             Inl e \<Rightarrow> Inl e
           | Inr c \<Rightarrow>
               (case requested_columns fields default_tables of
                  Inl e \<Rightarrow> Inl e
                | Inr cs \<Rightarrow> Inr (c # cs))))"

definition id_column :: string where
  "id_column = quoted_column ''variants'' ''id''"

definition count_column :: string where
  "count_column = ''COUNT('' @ id_column @ '') as '' @ [sq] @ ''count'' @ [sq]"

definition sql_fields ::
  "pyval list \<Rightarrow> string list \<Rightarrow> (string \<rightharpoonup> string) \<Rightarrow> error + string list" where
  "sql_fields fields group_by default_tables =
     (case requested_columns fields default_tables of
        Inl e \<Rightarrow> Inl e
      | Inr cs \<Rightarrow> Inr (id_column # (if group_by \<noteq> [] then [count_column] else []) @ cs))"

text \<open>
  \<^verbatim>\<open>
  fields_in_filters = [
      fields_to_sql(i["field"], default_tables) for i in filters_to_flat(filters)
  ]
  \<close>
\<close>

definition fields_in_filters :: "pyval \<Rightarrow> (string \<rightharpoonup> string) \<Rightarrow> error + string list" where
  "fields_in_filters filters default_tables =
     sequence (map (\<lambda>i. case py_getitem i ''field'' of
                           Inl e \<Rightarrow> Inl e
                         | Inr field \<Rightarrow> fields_to_sql field default_tables False)
                   (filters_to_flat filters))"

text \<open>
  \<^verbatim>\<open>
  need_join_annotations = False
  for col in sql_fields + fields_in_filters:
      if "annotations" in col:
          need_join_annotations = True
          break
  \<close>
\<close>

definition need_join_annotations :: "string list \<Rightarrow> bool" where
  "need_join_annotations cols = list_ex (str_contains ''annotations'') cols"

text \<open>
  \<^verbatim>\<open>
  all_fields = fields_in_filters + fields
  samples = []
  for col in all_fields:
      if isinstance(col, tuple):
          if col[0] == GENOTYPE_FUNC_NAME:
              sample_name = col[1]
              samples.append(sample_name)
  \<close>
  \<open>fields_in_filters\<close> holds the texts that \<open>fields_to_sql\<close> returned.
\<close>

fun samples :: "pyval list \<Rightarrow> error + pyval list" where
  "samples [] = Inr []"
| "samples (PTuple [] # all_fields) = Inl IndexError"
| "samples (PTuple (func_name # args) # all_fields) =
     (if func_name = PStr ''sample''
      then (case args of
              [] \<Rightarrow> Inl IndexError
            | sample_name # rest \<Rightarrow>
                (case samples all_fields of
                   Inl e \<Rightarrow> Inl e
                 | Inr names \<Rightarrow> Inr (sample_name # names)))
      else samples all_fields)"
| "samples (col # all_fields) = samples all_fields"

text \<open>
  \<^verbatim>\<open>
  for sample_name in samples:
      if sample_name in samples_ids:
          sample_id = samples_ids[sample_name]
          sql_query += f" INNER JOIN sample_has_variant `sample_{sample_name}` ON ..."
  \<close>
  \<open>samples_ids\<close> maps the name of a sample to its identifier. Looking up a value that
  cannot be hashed (a list, a dict, a tuple holding one) raises TypeError; a value that
  is no string is not a key.
\<close>

fun py_hashable :: "pyval \<Rightarrow> bool" where
  "py_hashable (PList xs) = False"
| "py_hashable (PDict kvs) = False"
| "py_hashable (PTuple xs) = list_all py_hashable xs"
| "py_hashable v = True"

fun sample_joins :: "pyval list \<Rightarrow> (string \<rightharpoonup> int) \<Rightarrow> error + clause list" where
  "sample_joins [] samples_ids = Inr []"
| "sample_joins (sample_name # names) samples_ids =
     (if \<not> py_hashable sample_name then Inl TypeError
      else case sample_joins names samples_ids of
        Inl e \<Rightarrow> Inl e
      | Inr js \<Rightarrow>
          (case sample_name of
             PStr s \<Rightarrow>
               (case samples_ids s of
                  Some sample_id \<Rightarrow> Inr (JoinSample s sample_id # js)
                | None \<Rightarrow> Inr js)
           | _ \<Rightarrow> Inr js))"

text \<open>
  \<^verbatim>\<open>
  if filters:
      where_clause = filters_to_sql(filters, default_tables)
      if where_clause and where_clause != "()":
          sql_query += " WHERE " + where_clause
  \<close>
\<close>

definition where_clauses :: "pyval \<Rightarrow> (string \<rightharpoonup> string) \<Rightarrow> error + clause list" where
  "where_clauses filters default_tables =
     (if py_truthy filters
      then (case filters_to_sql filters default_tables of
              Inl e \<Rightarrow> Inl e
            | Inr where_clause \<Rightarrow>
                if where_clause \<noteq> [] \<and> where_clause \<noteq> ''()''
                then Inr [Where where_clause] else Inr [])
      else Inr [])"

text \<open>
  \<^verbatim>\<open>
  if order_by:
      orientation = "DESC" if order_desc else "ASC"
      order_by = fields_to_sql(order_by, default_tables)
      sql_query += f" ORDER BY {order_by} {orientation}"
  \<close>
\<close>

definition order_clauses ::
  "pyval \<Rightarrow> pyval \<Rightarrow> (string \<rightharpoonup> string) \<Rightarrow> error + clause list" where
  "order_clauses order_by order_desc default_tables =
     (if py_truthy order_by
      then (case fields_to_sql order_by default_tables False of
              Inl e \<Rightarrow> Inl e
            | Inr f \<Rightarrow> Inr [OrderBy f (if py_truthy order_desc then ''DESC'' else ''ASC'')])
      else Inr [])"

text \<open>
  \<^verbatim>\<open>
  if limit:
      sql_query += f" LIMIT {limit} OFFSET {offset}"
  \<close>
\<close>

definition limit_clauses :: "pyval \<Rightarrow> pyval \<Rightarrow> clause list" where
  "limit_clauses limit offset =
     (if py_truthy limit then [Limit (py_str limit) (py_str offset)] else [])"

text \<open>
  The clauses of \<open>build_query\<close>, computed in the order of the source, so that the first
  exception raised there is the error returned here.
\<close>

definition build_query_clauses ::
  "pyval list \<Rightarrow> string \<Rightarrow> pyval \<Rightarrow> pyval \<Rightarrow> pyval \<Rightarrow> pyval \<Rightarrow> pyval \<Rightarrow> string list
     \<Rightarrow> (string \<rightharpoonup> string) \<Rightarrow> (string \<rightharpoonup> int) \<Rightarrow> error + clause list" where
  "build_query_clauses fields source filters order_by order_desc limit offset group_by
       default_tables samples_ids =
     (case sql_fields fields group_by default_tables of Inl e \<Rightarrow> Inl e | Inr cols \<Rightarrow>
      case fields_in_filters filters default_tables of Inl e \<Rightarrow> Inl e | Inr in_filters \<Rightarrow>
      case samples (map PStr in_filters @ fields) of Inl e \<Rightarrow> Inl e | Inr names \<Rightarrow>
      case sample_joins names samples_ids of Inl e \<Rightarrow> Inl e | Inr joins \<Rightarrow>
      case where_clauses filters default_tables of Inl e \<Rightarrow> Inl e | Inr wheres \<Rightarrow>
      case order_clauses order_by order_desc default_tables of Inl e \<Rightarrow> Inl e | Inr orders \<Rightarrow>
        Inr ([Select cols, From]
             @ (if need_join_annotations (cols @ in_filters) then [JoinAnnotations] else [])
             @ (if source \<noteq> ''variants'' then [JoinSelection source] else [])
             @ joins
             @ wheres
             @ (if group_by \<noteq> [] then [GroupBy group_by] else [])
             @ orders
             @ limit_clauses limit offset))"

definition build_query ::
  "pyval list \<Rightarrow> string \<Rightarrow> pyval \<Rightarrow> pyval \<Rightarrow> pyval \<Rightarrow> pyval \<Rightarrow> pyval \<Rightarrow> string list
     \<Rightarrow> (string \<rightharpoonup> string) \<Rightarrow> (string \<rightharpoonup> int) \<Rightarrow> error + string" where
  "build_query fields source filters order_by order_desc limit offset group_by
       default_tables samples_ids =
     (case build_query_clauses fields source filters order_by order_desc limit offset group_by
             default_tables samples_ids of
        Inl e \<Rightarrow> Inl e
      | Inr clauses \<Rightarrow> Inr (concat (map render clauses)))"

section \<open>Commands\<close>

text \<open>
  The commands of \<open>cutevariant/core/command.py\<close> talk to the database through a sqlite3
  connection and through the functions of \<open>cutevariant/core/sql.py\<close>. Both are taken as
  parameters: a record of operations on a connection state \<open>'c\<close>, each returning the new
  state or the exception it raises. \<open>rowcount\<close> and \<open>lastrowid\<close> read the cursor.
\<close>

record 'c storage =
  get_fields :: "'c \<Rightarrow> error + (string \<times> string) list"
  get_samples :: "'c \<Rightarrow> error + (string \<times> int) list"
  count_query :: "'c \<Rightarrow> string \<Rightarrow> error + int"
  insert_selection :: "'c \<Rightarrow> string \<Rightarrow> string \<Rightarrow> int \<Rightarrow> error + 'c \<times> int"
  execute :: "'c \<Rightarrow> string \<Rightarrow> error + 'c"
  create_selection_has_variant_indexes :: "'c \<Rightarrow> error + 'c"
  commit :: "'c \<Rightarrow> error + 'c"
  rowcount :: "'c \<Rightarrow> int"
  lastrowid :: "'c \<Rightarrow> int"
  union_variants :: "string \<Rightarrow> string \<Rightarrow> string"
  subtract_variants :: "string \<Rightarrow> string \<Rightarrow> string"
  intersect_variants :: "string \<Rightarrow> string \<Rightarrow> string"

text \<open>\<open>dict(pairs)\<close>: a later pair replaces an earlier one with the same key.\<close>

definition py_dict :: "('k \<times> 'v) list \<Rightarrow> ('k \<rightharpoonup> 'v)" where
  "py_dict pairs = map_of (rev pairs)"

text \<open>
  \<^verbatim>\<open>
  def drop_cmd(conn: sqlite3.Connection, feature, name, **kwargs):
      accept_features = ["selections", "sets"]
      if feature not in accept_features:
          raise vql.VQLSyntaxError(f"{feature} doesn't exists")
      if feature == "selections":
          conn.execute(f"DELETE FROM selections WHERE name = '{name}'")
          conn.commit()
          return {"success": True}
      if feature == "sets":
          print("delete")
          res = conn.execute(f"DELETE FROM sets WHERE name = '{name}'")
          conn.commit()
          return {"success": True}
  \<close>
  A command returns the connection state and its dict. What \<open>print\<close> writes is left out.
\<close>

definition delete_statement :: "string \<Rightarrow> string \<Rightarrow> string" where
  "delete_statement table name = ''DELETE FROM '' @ table @ '' WHERE name = '' @ [sq] @ name @ [sq]"

definition execute_and_commit ::
  "'c storage \<Rightarrow> 'c \<Rightarrow> string \<Rightarrow> error + 'c \<times> (string \<times> pyval) list" where
  "execute_and_commit st conn statement =
     (case execute st conn statement of
        Inl e \<Rightarrow> Inl e
      | Inr conn1 \<Rightarrow>
          (case commit st conn1 of
             Inl e \<Rightarrow> Inl e
           | Inr conn2 \<Rightarrow> Inr (conn2, [(''success'', PBool True)])))"

definition drop_cmd ::
  "'c storage \<Rightarrow> 'c \<Rightarrow> string \<Rightarrow> string \<Rightarrow> error + 'c \<times> (string \<times> pyval) list" where
  "drop_cmd st conn feature name =
     (if feature \<notin> set [''selections'', ''sets'']
      then Inl (VQLSyntaxError (feature @ '' doesn'' @ [sq] @ ''t exists''))
      else if feature = ''selections''
      then execute_and_commit st conn (delete_statement ''selections'' name)
      else execute_and_commit st conn (delete_statement ''sets'' name))"

text \<open>
  \<^verbatim>\<open>
  def create_cmd(conn, target, source="variants", filters=dict(), count=0, **kwargs):
      default_tables = dict([(i["name"], i["category"]) for i in sql.get_fields(conn)])
      samples_ids = dict([(i["name"], i["id"]) for i in sql.get_samples(conn)])
      if target is None:
          return {}
      cursor = conn.cursor()
      sql_query = build_query(["id"], source, filters, default_tables=default_tables,
                              samples_ids=samples_ids, limit=None)
      count = sql.count_query(conn, sql_query)
      selection_id = sql.insert_selection(cursor, sql_query, name=target, count=count)
      q = f"""
      INSERT INTO selection_has_variant
      SELECT DISTINCT id, {selection_id} FROM ({sql_query})
      """
      try:
          cursor.execute("""DROP INDEX idx_selection_has_variant""")
      except sqlite3.OperationalError:
          pass
      cursor.execute(q)
      sql.create_selection_has_variant_indexes(cursor)
      conn.commit()
      if cursor.rowcount:
          return {"id": cursor.lastrowid}
      return {}
  \<close>
  The part after the query is the same in \<open>set_cmd\<close>; it is \<open>materialize\<close> here.
\<close>

definition insert_statement :: "int \<Rightarrow> string \<Rightarrow> string" where
  "insert_statement selection_id sql_query =
     [CHR 0x0A] @ ''    INSERT INTO selection_has_variant'' @ [CHR 0x0A]
       @ ''    SELECT DISTINCT id, '' @ str_int selection_id @ '' FROM ('' @ sql_query @ '')''
       @ [CHR 0x0A] @ ''    ''"

definition drop_index :: "'c storage \<Rightarrow> 'c \<Rightarrow> error + 'c" where
  "drop_index st conn =
     (case execute st conn ''DROP INDEX idx_selection_has_variant'' of
        Inl (OperationalError m) \<Rightarrow> Inr conn
      | Inl e \<Rightarrow> Inl e
      | Inr conn1 \<Rightarrow> Inr conn1)"

definition materialize ::
  "'c storage \<Rightarrow> 'c \<Rightarrow> string \<Rightarrow> string \<Rightarrow> error + 'c \<times> (string \<times> pyval) list" where
  "materialize st conn sql_query target =
     (case count_query st conn sql_query of Inl e \<Rightarrow> Inl e | Inr count \<Rightarrow>
      case insert_selection st conn sql_query target count of Inl e \<Rightarrow> Inl e
      | Inr (conn1, selection_id) \<Rightarrow>
      case drop_index st conn1 of Inl e \<Rightarrow> Inl e | Inr conn2 \<Rightarrow>
      case execute st conn2 (insert_statement selection_id sql_query) of Inl e \<Rightarrow> Inl e
      | Inr conn3 \<Rightarrow>
      case create_selection_has_variant_indexes st conn3 of Inl e \<Rightarrow> Inl e | Inr conn4 \<Rightarrow>
      case commit st conn4 of Inl e \<Rightarrow> Inl e | Inr conn5 \<Rightarrow>
        if rowcount st conn5 \<noteq> 0
        then Inr (conn5, [(''id'', PInt (lastrowid st conn5))])
        else Inr (conn5, []))"

definition create_cmd ::
  "'c storage \<Rightarrow> 'c \<Rightarrow> string option \<Rightarrow> string \<Rightarrow> pyval
     \<Rightarrow> error + 'c \<times> (string \<times> pyval) list" where
  "create_cmd st conn target source filters =
     (case get_fields st conn of Inl e \<Rightarrow> Inl e | Inr field_rows \<Rightarrow>
      case get_samples st conn of Inl e \<Rightarrow> Inl e | Inr sample_rows \<Rightarrow>
      case target of
        None \<Rightarrow> Inr (conn, [])
      | Some target_name \<Rightarrow>
          (case build_query [PStr ''id''] source filters PNone (PBool True) PNone (PInt 0) []
                  (py_dict field_rows) (py_dict sample_rows) of
             Inl e \<Rightarrow> Inl e
           | Inr sql_query \<Rightarrow> materialize st conn sql_query target_name))"

text \<open>
  \<^verbatim>\<open>
  def set_cmd(conn, target, first, second, operator, **kwargs):
      if target is None or first is None or second is None or operator is None:
          return {}
      cursor = conn.cursor()
      query_first = build_query(["id"], first, limit=None)
      query_second = build_query(["id"], second, limit=None)
      if operator == "+":
          sql_query = sql.union_variants(query_first, query_second)
      if operator == "-":
          sql_query = sql.subtract_variants(query_first, query_second)
      if operator == "&":
          sql_query = sql.intersect_variants(query_first, query_second)
      count = sql.count_query(conn, sql_query)
      ...
  \<close>
  With another operator \<open>sql_query\<close> is never assigned, and reading it raises
  UnboundLocalError.
\<close>

definition id_query :: "string \<Rightarrow> error + string" where
  "id_query source =
     build_query [PStr ''id''] source (PDict []) PNone (PBool True) PNone (PInt 0) []
       Map.empty Map.empty"

definition set_cmd ::
  "'c storage \<Rightarrow> 'c \<Rightarrow> string option \<Rightarrow> string option \<Rightarrow> string option \<Rightarrow> string option
     \<Rightarrow> error + 'c \<times> (string \<times> pyval) list" where
  "set_cmd st conn target first second operator =
     (case (target, first, second, operator) of
        (Some target_name, Some first_name, Some second_name, Some op) \<Rightarrow>
          (case id_query first_name of Inl e \<Rightarrow> Inl e | Inr query_first \<Rightarrow>
           case id_query second_name of Inl e \<Rightarrow> Inl e | Inr query_second \<Rightarrow>
             if op = ''+''
             then materialize st conn (union_variants st query_first query_second) target_name
             else if op = ''-''
             then materialize st conn (subtract_variants st query_first query_second) target_name
             else if op = ''&''
             then materialize st conn (intersect_variants st query_first query_second) target_name
             else Inl UnboundLocalError)
      | _ \<Rightarrow> Inr (conn, []))"

subsection \<open>A store of tables\<close>

text \<open>
  A connection state to run the commands on: four tables, of which the two catalogs can
  be read. It has no SQL engine: what a statement or a query does is outside what it
  models, which it reports as \<open>OutsideModel\<close>.
\<close>

record db =
  db_fields :: "(string \<times> string) list"
  db_samples :: "(string \<times> int) list"
  db_selections :: "(string \<times> int) list"
  db_sets :: "(string \<times> string) list"

definition table_store :: "db storage" where
  "table_store =
     \<lparr> get_fields = (\<lambda>d. Inr (db_fields d)),
       get_samples = (\<lambda>d. Inr (db_samples d)),
       count_query = (\<lambda>d q. Inl OutsideModel),
       insert_selection = (\<lambda>d q n c. Inl OutsideModel),
       execute = (\<lambda>d statement. Inl OutsideModel),
       create_selection_has_variant_indexes = (\<lambda>d. Inr d),
       commit = (\<lambda>d. Inr d),
       rowcount = (\<lambda>d. 0),
       lastrowid = (\<lambda>d. 0),
       union_variants = (\<lambda>a b. a @ '' UNION '' @ b),
       subtract_variants = (\<lambda>a b. a @ '' EXCEPT '' @ b),
       intersect_variants = (\<lambda>a b. a @ '' INTERSECT '' @ b) \<rparr>"

section \<open>Notions used to state the properties\<close>

text \<open>The node with its operator put in upper case.\<close>

fun upper_value :: "pyval \<Rightarrow> pyval" where
  "upper_value (PStr opname) = PStr (py_upper opname)"
| "upper_value v = v"

fun upper_operator :: "(string \<times> pyval) list \<Rightarrow> (string \<times> pyval) list" where
  "upper_operator [] = []"
| "upper_operator ((k, v) # kvs) =
     (if k = ''operator'' then (k, upper_value v) else (k, v)) # upper_operator kvs"

text \<open>A resolved column names its table as its qualifier: \<open>`table`.`field`\<close>.\<close>

definition references_table :: "string \<Rightarrow> string \<Rightarrow> bool" where
  "references_table table col = starts_with ([bq] @ table @ [bq] @ ''.'') col"

fun is_join_sample :: "clause \<Rightarrow> bool" where
  "is_join_sample (JoinSample sample_name sample_id) = True"
| "is_join_sample c = False"

text \<open>
  The sample names that the genotype function fields of a list refer to, one for each
  occurrence, in the order of the list; and the join of a name, when the index knows it.
\<close>

fun genotype_names :: "pyval list \<Rightarrow> pyval list" where
  "genotype_names [] = []"
| "genotype_names (PTuple (func_name # sample_name # rest) # cols) =
     (if func_name = PStr ''sample'' then sample_name # genotype_names cols
      else genotype_names cols)"
| "genotype_names (col # cols) = genotype_names cols"

fun join_of_name :: "(string \<rightharpoonup> int) \<Rightarrow> pyval \<Rightarrow> clause list" where
  "join_of_name samples_ids (PStr s) =
     (case samples_ids s of Some sample_id \<Rightarrow> [JoinSample s sample_id] | None \<Rightarrow> [])"
| "join_of_name samples_ids v = []"

text \<open>
  The texts that a clause copies from what \<open>build_query\<close> was given: the resolved columns,
  the source, a sample name, the where clause made from the filter tree, the grouping
  fields, the order, the limit and the offset. The rest of a clause is fixed.
\<close>

fun caller_text :: "clause \<Rightarrow> string" where
  "caller_text (Select cols) = concat cols"
| "caller_text From = []"
| "caller_text JoinAnnotations = []"
| "caller_text (JoinSelection source) = source"
| "caller_text (JoinSample sample_name sample_id) = sample_name"
| "caller_text (Where where_clause) = where_clause"
| "caller_text (GroupBy group_by) = concat group_by"
| "caller_text (OrderBy order_by orientation) = order_by @ orientation"
| "caller_text (Limit limit offset) = limit @ offset"

text \<open>The \<open>order_by\<close> argument: None, or a field.\<close>

fun order_py :: "field_ref option \<Rightarrow> pyval" where
  "order_py None = PNone"
| "order_py (Some f) = field_py f"

section \<open>Properties of \<open>filters_to_flat\<close>\<close>

lemma recursive_generator_scalar: "recursive_generator (scalar_py x) = []"
  by (cases x) simp_all

lemma recursive_generator_scalars:
  "concat (map recursive_generator (map scalar_py xs)) = []"
  by (induction xs) (simp_all add: recursive_generator_scalar)

lemma recursive_generator_field: "recursive_generator (field_py f) = []"
  by (cases f) simp_all

lemma recursive_generator_value: "recursive_generator (value_py v) = []"
  by (cases v) (simp_all add: recursive_generator_scalar recursive_generator_scalars)

lemma length_leaves: "length (leaves t) = count_leaves t"
proof (induction t rule: leaves.induct)
  case (1 op children)
  have "length (concat (map leaves children)) = sum_list (map (length \<circ> leaves) children)"
    by (simp add: length_concat)
  also have "\<dots> = sum_list (map count_leaves children)"
    using 1 by (intro arg_cong [where f = sum_list] map_cong) simp_all
  finally show ?case by simp
next
  case (2 f op v)
  show ?case by simp
qed

lemma recursive_generator_to_py: "recursive_generator (to_py t) = map to_py (leaves t)"
proof (induction t rule: leaves.induct)
  case (1 op children)
  have "concat (map recursive_generator (map to_py children))
          = concat (map (\<lambda>c. map to_py (leaves c)) children)"
    using 1 by (simp add: comp_def cong: map_cong)
  also have "\<dots> = map to_py (concat (map leaves children))"
    by (simp add: map_concat comp_def)
  finally show ?case by simp
next
  case (2 f op v)
  show ?case
    by (simp add: condition_dict_def recursive_generator_field recursive_generator_value)
qed

text \<open>
  C7. On a well-formed filter tree with N leaf conditions, whatever its depth and its mix
  of AND and OR nodes, \<open>filters_to_flat\<close> returns exactly N items: the dicts of the leaf
  conditions, in pre-order. On the empty dict it returns nothing.
\<close>

theorem filters_to_flat_leaves:
  "filters_to_flat (to_py t) = map to_py (leaves t)
   \<and> length (filters_to_flat (to_py t)) = count_leaves t
   \<and> filters_to_flat (PDict []) = []"
  by (simp add: filters_to_flat_def recursive_generator_to_py length_leaves)

theorem filters_to_flat_leaves_witness:
  "filters_to_flat (to_py (LogicNode AND
      [ConditionNode (FieldName ''a'') ''='' (VScalar (SInt 3)),
       LogicNode OR
         [ConditionNode (FieldName ''b'') ''='' (VScalar (SInt 5)),
          ConditionNode (FieldName ''c'') ''IN'' (VTuple [SStr ''x'', SStr ''y''])]]))
   = [condition_dict (PStr ''a'') (PStr ''='') (PInt 3),
      condition_dict (PStr ''b'') (PStr ''='') (PInt 5),
      condition_dict (PStr ''c'') (PStr ''IN'') (PTuple [PStr ''x'', PStr ''y''])]"
  using filters_to_flat_leaves
    [of "LogicNode AND
      [ConditionNode (FieldName ''a'') ''='' (VScalar (SInt 3)),
       LogicNode OR
         [ConditionNode (FieldName ''b'') ''='' (VScalar (SInt 5)),
          ConditionNode (FieldName ''c'') ''IN'' (VTuple [SStr ''x'', SStr ''y''])]]"]
  by simp

section \<open>Properties of \<open>filters_to_sql\<close>\<close>

lemma upper_char_idem: "upper_char (upper_char c) = upper_char c"
  by (auto simp: upper_char_def Let_def)

lemma py_upper_idem: "py_upper (py_upper s) = py_upper s"
  by (simp add: py_upper_def upper_char_idem)

lemma filters_to_sql_condition:
  "length kvs = 3 \<Longrightarrow> filters_to_sql (PDict kvs) dt = condition_to_sql dt (PDict kvs)"
  by (subst filters_to_sql_def, subst filters_to_sql_recursive.simps)
     (auto simp: is_field_def)

text \<open>
  C4. A condition node (a dict of the three items, in any order) whose operator is HAS
  and whose value is a string renders to a LIKE predicate. Its value is the original
  text with every single quote and every double quote replaced by \<open>%\<close>, between two
  \<open>%\<close> (the quotes that the quoting of a string had put around it, replaced as well),
  between quotes. The field must be one that \<open>fields_to_sql\<close> resolves.
\<close>

theorem has_to_like:
  assumes "length kvs = 3"
    and "map_of kvs ''field'' = Some field"
    and "map_of kvs ''operator'' = Some (PStr ''HAS'')"
    and "map_of kvs ''value'' = Some (PStr s)"
    and "fields_to_sql field default_tables False = Inr field_sql"
  shows "filters_to_sql (PDict kvs) default_tables
           = Inr (field_sql @ '' LIKE '' @ [sq] @ ''%''
                   @ map (\<lambda>c. if c = sq \<or> c = dq then CHR ''%'' else c) s @ ''%'' @ [sq])"
proof -
  have up: "py_upper ''HAS'' = ''HAS''"
    by (simp add: py_upper_def upper_char_def)
  show ?thesis
    using assms
    by (simp add: filters_to_sql_condition condition_to_sql_def render_condition_def up
        sql_operator_def translate_quotes_def)
qed

text \<open>The value \<open>test"x'y\<close> on the field \<open>a\<close> gives \<open>`a` LIKE '%test%x%y%'\<close>.\<close>

theorem has_to_like_witness:
  "filters_to_sql
     (PDict [(''field'', PStr ''a''), (''operator'', PStr ''HAS''),
             (''value'', PStr (''test'' @ [dq] @ ''x'' @ [sq] @ ''y''))]) Map.empty
   = Inr ([bq] @ ''a'' @ [bq] @ '' LIKE '' @ [sq] @ ''%test%x%y%'' @ [sq])"
  using has_to_like
    [of "[(''field'', PStr ''a''), (''operator'', PStr ''HAS''),
          (''value'', PStr (''test'' @ [dq] @ ''x'' @ [sq] @ ''y''))]"
        "PStr ''a''" "''test'' @ [dq] @ ''x'' @ [sq] @ ''y''" Map.empty "[bq] @ ''a'' @ [bq]"]
  by (simp add: match_table_field_def is_word_def sq_def dq_def)

lemma getitem_upper_operator_other:
  "k \<noteq> ''operator'' \<Longrightarrow> py_getitem (PDict (upper_operator kvs)) k = py_getitem (PDict kvs) k"
  by (induction kvs rule: upper_operator.induct) simp_all

lemma map_of_upper_operator:
  "map_of kvs ''operator'' = Some v
     \<Longrightarrow> map_of (upper_operator kvs) ''operator'' = Some (upper_value v)"
  by (induction kvs rule: upper_operator.induct) (simp_all split: if_splits)

lemma length_upper_operator: "length (upper_operator kvs) = length kvs"
  by (induction kvs rule: upper_operator.induct) simp_all

lemma condition_to_sql_upper:
  assumes "map_of kvs ''operator'' = Some (PStr opname)"
  shows "condition_to_sql dt (PDict (upper_operator kvs)) = condition_to_sql dt (PDict kvs)"
proof -
  have "py_getitem (PDict (upper_operator kvs)) ''operator'' = Inr (PStr (py_upper opname))"
    using map_of_upper_operator [OF assms] by simp
  moreover have "py_getitem (PDict kvs) ''operator'' = Inr (PStr opname)"
    using assms by simp
  ultimately show ?thesis
    by (simp add: condition_to_sql_def getitem_upper_operator_other py_upper_idem
        del: py_getitem.simps split: sum.splits)
qed

text \<open>
  C10, as stated, fails on its last part: the operator \<open>has\<close> is rendered as \<open>LIKE\<close>, and
  \<open>HAS\<close> occurs nowhere in the SQL of the condition.
\<close>

theorem operator_case_counterexample:
  "filters_to_sql (condition_dict (PStr ''f'') (PStr ''has'') (PStr ''x'')) Map.empty
     = Inr ([bq] @ ''f'' @ [bq] @ '' LIKE '' @ [sq] @ ''%x%'' @ [sq])
   \<and> \<not> str_contains ''HAS'' ([bq] @ ''f'' @ [bq] @ '' LIKE '' @ [sq] @ ''%x%'' @ [sq])"
  by code_simp

text \<open>
  C10, amended. The SQL of a condition node does not depend on the letter case of its
  operator: the node renders as the node with its operator in upper case does (to the
  same text or to the same error). The operator of the output, between the resolved
  field and the value, is the operator in upper case, except that \<open>~\<close> is written
  \<open>REGEXP\<close> and \<open>HAS\<close> is written \<open>LIKE\<close>.
\<close>

theorem operator_case_invariant:
  assumes "length kvs = 3" and "map_of kvs ''operator'' = Some (PStr opname)"
  shows "filters_to_sql (PDict (upper_operator kvs)) default_tables
           = filters_to_sql (PDict kvs) default_tables
         \<and> map_of (upper_operator kvs) ''operator'' = Some (PStr (py_upper opname))
         \<and> (\<forall>out. filters_to_sql (PDict kvs) default_tables = Inr out \<longrightarrow>
              (\<exists>field field_sql value_sql.
                 map_of kvs ''field'' = Some field
                 \<and> fields_to_sql field default_tables False = Inr field_sql
                 \<and> out = field_sql @ '' '' @ sql_operator (py_upper opname) @ '' '' @ value_sql))"
proof (intro conjI allI impI)
  show "filters_to_sql (PDict (upper_operator kvs)) default_tables
          = filters_to_sql (PDict kvs) default_tables"
    using assms
    by (simp add: filters_to_sql_condition length_upper_operator condition_to_sql_upper)
  show "map_of (upper_operator kvs) ''operator'' = Some (PStr (py_upper opname))"
    using map_of_upper_operator [OF assms(2)] by simp
next
  fix out
  assume "filters_to_sql (PDict kvs) default_tables = Inr out"
  then have c: "condition_to_sql default_tables (PDict kvs) = Inr out"
    using assms(1) by (simp add: filters_to_sql_condition)
  then obtain field where f: "map_of kvs ''field'' = Some field"
    by (cases "map_of kvs ''field''") (simp_all add: condition_to_sql_def)
  from c obtain v where v: "map_of kvs ''value'' = Some v"
    by (cases "map_of kvs ''value''") (simp_all add: condition_to_sql_def f)
  from c f v assms(2)
  have r: "render_condition default_tables field (py_upper opname) v = Inr out"
    by (simp add: condition_to_sql_def)
  then obtain field_sql where fs: "fields_to_sql field default_tables False = Inr field_sql"
    by (cases "fields_to_sql field default_tables False")
       (simp_all add: render_condition_def split: sum.splits)
  from r fs
  have "\<exists>value_sql. out = field_sql @ '' '' @ sql_operator (py_upper opname) @ '' '' @ value_sql"
    by (auto simp add: render_condition_def split: sum.splits)
  with f fs show "\<exists>field field_sql value_sql.
                 map_of kvs ''field'' = Some field
                 \<and> fields_to_sql field default_tables False = Inr field_sql
                 \<and> out = field_sql @ '' '' @ sql_operator (py_upper opname) @ '' '' @ value_sql"
    by blast
qed

text \<open>The operator \<open>in\<close> renders as \<open>IN\<close> does.\<close>

theorem operator_case_invariant_witness:
  "filters_to_sql (PDict [(''field'', PStr ''ref''), (''operator'', PStr ''IN''),
                          (''value'', PTuple [PStr ''A'', PStr ''C''])]) Map.empty
     = filters_to_sql (PDict [(''field'', PStr ''ref''), (''operator'', PStr ''in''),
                          (''value'', PTuple [PStr ''A'', PStr ''C''])]) Map.empty"
proof -
  have p: "py_upper ''in'' = ''IN''"
    by code_simp
  have "filters_to_sql (PDict (upper_operator [(''field'', PStr ''ref''),
            (''operator'', PStr ''in''), (''value'', PTuple [PStr ''A'', PStr ''C''])])) Map.empty
        = filters_to_sql (PDict [(''field'', PStr ''ref''), (''operator'', PStr ''in''),
            (''value'', PTuple [PStr ''A'', PStr ''C''])]) Map.empty"
    using operator_case_invariant
      [of "[(''field'', PStr ''ref''), (''operator'', PStr ''in''),
            (''value'', PTuple [PStr ''A'', PStr ''C''])]" "''in''" Map.empty]
    by simp
  then show ?thesis
    by (simp add: p)
qed

section \<open>Properties of \<open>build_query\<close>\<close>

lemma build_query_clauses_Inr:
  assumes "build_query_clauses flds source filters ob od limit offset gb dt sids = Inr clauses"
  obtains cols in_filters names joins wheres orders where
    "sql_fields flds gb dt = Inr cols"
    "fields_in_filters filters dt = Inr in_filters"
    "samples (map PStr in_filters @ flds) = Inr names"
    "sample_joins names sids = Inr joins"
    "where_clauses filters dt = Inr wheres"
    "order_clauses ob od dt = Inr orders"
    "clauses = [Select cols, From]
       @ (if need_join_annotations (cols @ in_filters) then [JoinAnnotations] else [])
       @ (if source \<noteq> ''variants'' then [JoinSelection source] else [])
       @ joins @ wheres @ (if gb \<noteq> [] then [GroupBy gb] else []) @ orders
       @ limit_clauses limit offset"
  using assms
  by (auto simp: build_query_clauses_def split: sum.splits)

lemma sample_joins_are_joins:
  "sample_joins names sids = Inr joins \<Longrightarrow> joins = concat (map (join_of_name sids) names)"
proof (induction names arbitrary: joins)
  case Nil
  then show ?case by simp
next
  case (Cons n names)
  then show ?case
    by (cases n) (auto split: if_splits sum.splits option.splits)
qed

lemma join_of_name_is_join: "c \<in> set (join_of_name sids n) \<Longrightarrow> is_join_sample c"
  by (cases n) (auto split: option.splits)

lemma where_clauses_cases:
  "where_clauses filters dt = Inr wheres \<Longrightarrow> wheres = [] \<or> (\<exists>w. wheres = [Where w])"
  by (auto simp: where_clauses_def split: if_splits sum.splits)

lemma order_clauses_cases:
  "order_clauses ob od dt = Inr orders \<Longrightarrow> orders = [] \<or> (\<exists>f d. orders = [OrderBy f d])"
  by (auto simp: order_clauses_def split: if_splits sum.splits)

lemma where_clauses_empty: "where_clauses (PDict []) dt = Inr []"
  by (simp add: where_clauses_def)

lemma filters_to_sql_empty: "filters_to_sql (PDict []) dt = Inr []"
  by (subst filters_to_sql_def, subst filters_to_sql_recursive.simps) simp

lemma build_query_concat:
  "build_query_clauses flds source filters ob od limit offset gb dt sids = Inr clauses
     \<Longrightarrow> build_query flds source filters ob od limit offset gb dt sids
           = Inr (concat (map render clauses))"
  by (simp add: build_query_def)

lemma joins_not_where:
  "sample_joins names sids = Inr joins \<Longrightarrow> c \<in> set joins \<Longrightarrow> is_join_sample c"
  by (auto dest!: sample_joins_are_joins join_of_name_is_join)

lemma where_clauses_no_children: "where_clauses (to_py (LogicNode op [])) dt = Inr []"
proof -
  have "filters_to_sql (to_py (LogicNode op [])) dt = Inr ''()''"
    by (subst filters_to_sql_def, subst filters_to_sql_recursive.simps)
       (simp add: is_field_def)
  then show ?thesis
    by (simp add: where_clauses_def)
qed

lemma fields_to_sql_field_py: "\<exists>c. fields_to_sql (field_py f) dt use_as = Inr c"
  by (cases f) (auto split: option.splits)

lemma contains_id_field_py: "\<exists>b. contains_id (field_py f) = Inr b"
  by (cases f) simp_all

lemma requested_columns_field_py: "\<exists>cs. requested_columns (map field_py fs) dt = Inr cs"
proof (induction fs)
  case Nil
  show ?case by simp
next
  case (Cons f fs)
  obtain b where b: "contains_id (field_py f) = Inr b"
    using contains_id_field_py by blast
  obtain c where c: "fields_to_sql (field_py f) dt True = Inr c"
    using fields_to_sql_field_py by blast
  from Cons obtain cs where cs: "requested_columns (map field_py fs) dt = Inr cs"
    by blast
  show ?case
    by (cases b) (simp_all add: b c cs)
qed

lemma samples_field_py: "samples (map field_py fs) = Inr (genotype_names (map field_py fs))"
proof (induction fs)
  case Nil
  show ?case by simp
next
  case (Cons f fs)
  then show ?case by (cases f) simp_all
qed

lemma genotype_names_strings:
  "n \<in> set (genotype_names (map field_py fs)) \<Longrightarrow> \<exists>s. n = PStr s"
proof (induction fs)
  case Nil
  then show ?case by simp
next
  case (Cons f fs)
  then show ?case by (cases f) (auto split: if_splits)
qed

lemma sample_joins_strings:
  "(\<And>n. n \<in> set names \<Longrightarrow> \<exists>s. n = PStr s) \<Longrightarrow> \<exists>js. sample_joins names sids = Inr js"
proof (induction names)
  case Nil
  show ?case by simp
next
  case (Cons n names)
  then obtain s where s: "n = PStr s"
    by auto
  from Cons obtain js where js: "sample_joins names sids = Inr js"
    by auto
  show ?case
    by (simp add: s js split: option.splits)
qed

lemma order_clauses_order_py: "\<exists>orders. order_clauses (order_py ob) od dt = Inr orders"
proof (cases ob)
  case None
  then show ?thesis by (simp add: order_clauses_def)
next
  case (Some f)
  obtain c where "fields_to_sql (field_py f) dt False = Inr c"
    using fields_to_sql_field_py by blast
  with Some show ?thesis by (simp add: order_clauses_def)
qed

lemma build_query_clauses_returns:
  "\<exists>clauses. build_query_clauses (map field_py fs) source (PDict []) (order_py ob) od limit offset
      gb dt sids = Inr clauses"
proof -
  obtain cs where cs: "requested_columns (map field_py fs) dt = Inr cs"
    using requested_columns_field_py by blast
  obtain js where js: "sample_joins (genotype_names (map field_py fs)) sids = Inr js"
    using sample_joins_strings [of "genotype_names (map field_py fs)" sids]
      genotype_names_strings by blast
  obtain orders where o: "order_clauses (order_py ob) od dt = Inr orders"
    using order_clauses_order_py by blast
  have f: "fields_in_filters (PDict []) dt = Inr []"
    by (simp add: fields_in_filters_def filters_to_flat_def)
  show ?thesis
    by (simp add: build_query_clauses_def sql_fields_def cs f samples_field_py js
        where_clauses_empty o)
qed

lemma str_contains_hd: "str_contains (x # xs) s \<Longrightarrow> x \<in> set s"
  by (induction s) auto

lemma set_join: "set (join sep xs) \<subseteq> set sep \<union> set (concat xs)"
  by (induction sep xs rule: join.induct) auto

lemma str_nat_no_W: "CHR ''W'' \<notin> set (str_nat n)"
proof (induction n rule: str_nat.induct)
  case (1 n)
  have d: "char_of (48 + k) \<noteq> CHR ''W''" if "k < 10" for k :: nat
  proof
    assume "char_of (48 + k) = CHR ''W''"
    then have "of_char (char_of (48 + k) :: char) = (of_char CHR ''W'' :: nat)"
      by simp
    with that show False
      by simp
  qed
  show ?case
  proof (cases "n < 10")
    case True
    then show ?thesis
      using d [of n] by (subst str_nat.simps) auto
  next
    case False
    with 1 d [of "n mod 10"] show ?thesis
      by (subst str_nat.simps) auto
  qed
qed

lemma str_int_no_W: "CHR ''W'' \<notin> set (str_int i)"
  by (simp add: str_int_def str_nat_no_W)

lemma render_W:
  assumes "CHR ''W'' \<in> set (render c)"
  shows "(\<exists>w. c = Where w) \<or> CHR ''W'' \<in> set (caller_text c)"
proof (cases c)
  case (Select cols)
  with assms set_join [of "'',''" cols] show ?thesis by auto
next
  case (GroupBy g)
  with assms set_join [of "'',''" g] show ?thesis by auto
next
  case (JoinSample n i)
  with assms show ?thesis by (auto simp: sample_alias_def bq_def str_int_no_W)
next
  case (JoinSelection source)
  with assms show ?thesis by (auto simp: sq_def)
qed (use assms in auto)

lemma where_word_from_caller:
  assumes "str_contains ''WHERE'' (concat (map render clauses))"
    and "\<forall>w. Where w \<notin> set clauses"
  shows "\<exists>c \<in> set clauses. CHR ''W'' \<in> set (caller_text c)"
proof -
  from assms(1) have "CHR ''W'' \<in> set (concat (map render clauses))"
    by (rule str_contains_hd)
  then obtain c where c: "c \<in> set clauses" "CHR ''W'' \<in> set (render c)"
    by auto
  with assms(2) render_W [of c] show ?thesis
    by auto
qed

text \<open>
  C5. The empty filter tree \<open>{}\<close> renders to the empty text. With it, and also with a
  logic node that has no child, \<open>build_query\<close> appends no WHERE clause, whatever its other
  arguments: none of the clauses that make up its SQL text is one, and the word WHERE can
  be found in that text only where a clause copied a text with the letter W from the
  arguments. And with \<open>{}\<close> \<open>build_query\<close> does return its SQL when the fields are names
  or function calls and the order is None or such a field.
\<close>

theorem empty_filter_no_where:
  "filters_to_sql (PDict []) dt = Inr []
   \<and> ((filters = PDict [] \<or> filters = to_py (LogicNode op []))
        \<longrightarrow> build_query_clauses flds source filters ob od limit offset gb dt sids = Inr clauses
        \<longrightarrow> (\<forall>w. Where w \<notin> set clauses)
            \<and> build_query flds source filters ob od limit offset gb dt sids
                = Inr (concat (map render clauses))
            \<and> (str_contains ''WHERE'' (concat (map render clauses))
                 \<longrightarrow> (\<exists>c \<in> set clauses. CHR ''W'' \<in> set (caller_text c))))
   \<and> (\<exists>cs. build_query_clauses (map field_py fs) source (PDict []) (order_py order_by) od
              limit offset gb dt sids = Inr cs)"
proof (intro conjI impI)
  show "filters_to_sql (PDict []) dt = Inr []"
    by (rule filters_to_sql_empty)
  show "\<exists>cs. build_query_clauses (map field_py fs) source (PDict []) (order_py order_by) od
              limit offset gb dt sids = Inr cs"
    by (rule build_query_clauses_returns)
next
  assume f: "filters = PDict [] \<or> filters = to_py (LogicNode op [])"
    and a: "build_query_clauses flds source filters ob od limit offset gb dt sids = Inr clauses"
  from a show "build_query flds source filters ob od limit offset gb dt sids
                = Inr (concat (map render clauses))"
    by (rule build_query_concat)
  from a obtain cols in_filters names joins wheres orders where
    j: "sample_joins names sids = Inr joins"
    and w: "where_clauses filters dt = Inr wheres"
    and o: "order_clauses ob od dt = Inr orders"
    and c: "clauses = [Select cols, From]
       @ (if need_join_annotations (cols @ in_filters) then [JoinAnnotations] else [])
       @ (if source \<noteq> ''variants'' then [JoinSelection source] else [])
       @ joins @ wheres @ (if gb \<noteq> [] then [GroupBy gb] else []) @ orders
       @ limit_clauses limit offset"
    by (rule build_query_clauses_Inr)
  from f w have w0: "wheres = []"
    using where_clauses_empty [of dt] where_clauses_no_children [of op dt] by auto
  have "Where w \<notin> set joins" for w
    using joins_not_where [OF j, of "Where w"] by auto
  moreover have "Where w \<notin> set orders" for w
    using order_clauses_cases [OF o] by auto
  ultimately show nw: "\<forall>w. Where w \<notin> set clauses"
    by (simp add: c w0 limit_clauses_def)
  assume "str_contains ''WHERE'' (concat (map render clauses))"
  then show "\<exists>c \<in> set clauses. CHR ''W'' \<in> set (caller_text c)"
    using nw by (rule where_word_from_caller)
qed

theorem empty_filter_no_where_witness:
  "build_query [PStr ''chr'', PStr ''pos''] ''variants'' (PDict []) PNone (PBool True)
       (PInt 50) (PInt 0) [] Map.empty Map.empty
     = Inr ''SELECT `variants`.`id`,`chr`,`pos` FROM variants LIMIT 50 OFFSET 0''"
proof -
  have e: "build_query_clauses [PStr ''chr'', PStr ''pos''] ''variants'' (PDict []) PNone
             (PBool True) (PInt 50) (PInt 0) [] Map.empty Map.empty
           = Inr [Select [''`variants`.`id`'', ''`chr`'', ''`pos`''], From, Limit ''50'' ''0'']"
    by code_simp
  have r: "concat (map render [Select [''`variants`.`id`'', ''`chr`'', ''`pos`''], From,
                                Limit ''50'' ''0''])
           = ''SELECT `variants`.`id`,`chr`,`pos` FROM variants LIMIT 50 OFFSET 0''"
    by code_simp
  from e empty_filter_no_where
    [where dt = Map.empty and filters = "PDict []" and flds = "[PStr ''chr'', PStr ''pos'']"
       and source = "''variants''" and ob = PNone and od = "PBool True" and limit = "PInt 50"
       and offset = "PInt 0" and gb = "[]" and sids = Map.empty
       and clauses = "[Select [''`variants`.`id`'', ''`chr`'', ''`pos`''], From,
                       Limit ''50'' ''0'']"]
  show ?thesis
    by (simp only: r) simp
qed

lemma build_query_limit_suffix:
  assumes "build_query_clauses flds source filters ob od PNone offset gb dt sids = Inr clauses"
    and "py_truthy limit'"
  shows "build_query flds source filters ob od limit' offset' gb dt sids
           = Inr (concat (map render clauses) @ '' LIMIT '' @ py_str limit'
                   @ '' OFFSET '' @ py_str offset')"
proof -
  have "build_query_clauses flds source filters ob od limit' offset' gb dt sids
          = Inr (clauses @ [Limit (py_str limit') (py_str offset')])"
    using assms
    by (auto simp: build_query_clauses_def limit_clauses_def split: sum.splits)
  then show ?thesis
    by (simp add: build_query_def)
qed

lemma str_nat_digits: "c \<in> set (str_nat n) \<Longrightarrow> 48 \<le> (of_char c :: nat) \<and> (of_char c :: nat) < 58"
proof (induction n rule: str_nat.induct)
  case (1 n)
  show ?case
  proof (cases "n < 10")
    case True
    with "1.prems" have "c = char_of (48 + n)"
      by (subst (asm) str_nat.simps) simp
    with True show ?thesis by simp
  next
    case False
    with "1.prems" have "c \<in> set (str_nat (n div 10)) \<or> c = char_of (48 + n mod 10)"
      by (subst (asm) str_nat.simps) auto
    then show ?thesis
    proof
      assume "c \<in> set (str_nat (n div 10))"
      with False "1.IH" show ?thesis by simp
    next
      assume c: "c = char_of (48 + n mod 10)"
      have "n mod 10 < 10" by simp
      then have "(48 + n mod 10) mod 256 = 48 + n mod 10" by simp
      with c show ?thesis by simp
    qed
  qed
qed

lemma str_int_chars:
  "c \<in> set (str_int i) \<Longrightarrow> c = CHR ''-'' \<or> (48 \<le> (of_char c :: nat) \<and> (of_char c :: nat) < 58)"
  by (auto simp: str_int_def dest: str_nat_digits split: if_splits)

lemma str_int_no_M: "CHR ''M'' \<notin> set (str_int i)"
  using str_int_chars [of "CHR ''M''" i] by auto

lemma str_int_no_F: "CHR ''F'' \<notin> set (str_int i)"
  using str_int_chars [of "CHR ''F''" i] by auto

lemma render_M:
  assumes "CHR ''M'' \<in> set (render c)"
  shows "c = From \<or> (\<exists>l m. c = Limit l m) \<or> CHR ''M'' \<in> set (caller_text c)"
proof (cases c)
  case (Select cols)
  with assms set_join [of "'',''" cols] show ?thesis by auto
next
  case (GroupBy g)
  with assms set_join [of "'',''" g] show ?thesis by auto
next
  case (JoinSample n i)
  with assms show ?thesis by (auto simp: sample_alias_def bq_def str_int_no_M)
next
  case (JoinSelection source)
  with assms show ?thesis by (auto simp: sq_def)
qed (use assms in auto)

lemma render_F:
  assumes "CHR ''F'' \<in> set (render c)"
  shows "c = From \<or> c = JoinAnnotations \<or> (\<exists>l m. c = Limit l m)
           \<or> CHR ''F'' \<in> set (caller_text c)"
proof (cases c)
  case (Select cols)
  with assms set_join [of "'',''" cols] show ?thesis by auto
next
  case (GroupBy g)
  with assms set_join [of "'',''" g] show ?thesis by auto
next
  case (JoinSample n i)
  with assms show ?thesis by (auto simp: sample_alias_def bq_def str_int_no_F)
next
  case (JoinSelection source)
  with assms show ?thesis by (auto simp: sq_def)
qed (use assms in auto)

lemma starts_with_set: "starts_with w s \<Longrightarrow> set w \<subseteq> set s"
  by (induction w s rule: starts_with.induct) auto

lemma str_contains_set: "str_contains w s \<Longrightarrow> set w \<subseteq> set s"
proof (induction s)
  case Nil
  then show ?case by simp
next
  case (Cons c s)
  then show ?case
    using starts_with_set [of w "c # s"] by auto
qed

lemma no_limit_across_from:
  assumes "CHR ''M'' \<notin> set a" and "CHR ''M'' \<notin> set b"
  shows "\<not> str_contains ''LIMIT'' (a @ ''FROM variants'' @ b)"
  using assms(1)
proof (induction a)
  case Nil
  have "\<not> str_contains ''LIMIT'' b"
    using str_contains_set [of "''LIMIT''" b] assms(2) by auto
  then show ?case by simp
next
  case (Cons x a)
  then have ih: "\<not> str_contains ''LIMIT'' (a @ ''FROM variants'' @ b)"
    by simp
  have "\<not> starts_with ''LIMIT'' (x # a @ ''FROM variants'' @ b)"
  proof (cases a)
    case Nil
    then show ?thesis by simp
  next
    case (Cons y a')
    show ?thesis
    proof (cases a')
      case Nil
      with Cons show ?thesis by simp
    next
      case (Cons z a'')
      with \<open>a = y # a'\<close> \<open>CHR ''M'' \<notin> set (x # a)\<close> show ?thesis by auto
    qed
  qed
  with ih show ?case by simp
qed

lemma no_offset_across_fixed:
  assumes "CHR ''F'' \<notin> set a" and "\<not> str_contains ''OFFSET'' (fixed @ b)"
    and "\<exists>r. fixed = CHR ''F'' # CHR ''R'' # r"
  shows "\<not> str_contains ''OFFSET'' (a @ fixed @ b)"
  using assms(1)
proof (induction a)
  case Nil
  with assms(2) show ?case by simp
next
  case (Cons x a)
  then have ih: "\<not> str_contains ''OFFSET'' (a @ fixed @ b)"
    by simp
  from assms(3) obtain r where r: "fixed = CHR ''F'' # CHR ''R'' # r"
    by blast
  have "\<not> starts_with ''OFFSET'' (x # a @ fixed @ b)"
  proof (cases a)
    case Nil
    then show ?thesis by (simp add: r)
  next
    case (Cons y a')
    with \<open>CHR ''F'' \<notin> set (x # a)\<close> show ?thesis by auto
  qed
  with ih show ?case by simp
qed

lemma no_offset_after_from:
  assumes "CHR ''F'' \<notin> set b"
  shows "\<not> str_contains ''OFFSET'' (''FROM variants'' @ b)"
    and "\<not> str_contains ''OFFSET'' ((''FROM variants'' @ render JoinAnnotations) @ b)"
proof -
  have b: "\<not> str_contains ''OFFSET'' b"
    using str_contains_set [of "''OFFSET''" b] assms by auto
  then show "\<not> str_contains ''OFFSET'' (''FROM variants'' @ b)"
    by simp
  from b show "\<not> str_contains ''OFFSET'' ((''FROM variants'' @ render JoinAnnotations) @ b)"
    by simp
qed

lemma limit_words_from_caller:
  assumes "build_query_clauses flds source filters ob od PNone offset gb dt sids = Inr clauses"
  shows "(str_contains ''LIMIT'' (concat (map render clauses))
            \<longrightarrow> (\<exists>c \<in> set clauses. CHR ''M'' \<in> set (caller_text c)))
         \<and> (str_contains ''OFFSET'' (concat (map render clauses))
            \<longrightarrow> (\<exists>c \<in> set clauses. CHR ''F'' \<in> set (caller_text c)))"
proof -
  from assms obtain cols in_filters names joins wheres orders where
    j: "sample_joins names sids = Inr joins"
    and w: "where_clauses filters dt = Inr wheres"
    and o: "order_clauses ob od dt = Inr orders"
    and c: "clauses = [Select cols, From]
       @ (if need_join_annotations (cols @ in_filters) then [JoinAnnotations] else [])
       @ (if source \<noteq> ''variants'' then [JoinSelection source] else [])
       @ joins @ wheres @ (if gb \<noteq> [] then [GroupBy gb] else []) @ orders
       @ limit_clauses PNone offset"
    by (rule build_query_clauses_Inr)
  define ann where
    "ann = (if need_join_annotations (cols @ in_filters) then [JoinAnnotations] else [])"
  define rest where
    "rest = (if source \<noteq> ''variants'' then [JoinSelection source] else [])
       @ joins @ wheres @ (if gb \<noteq> [] then [GroupBy gb] else []) @ orders"
  have c': "clauses = Select cols # From # ann @ rest"
    by (simp add: c ann_def rest_def limit_clauses_def)
  have jn: "x \<in> set joins \<Longrightarrow> is_join_sample x" for x
    using joins_not_where [OF j] by blast
  have rest_kind: "x \<noteq> From \<and> x \<noteq> JoinAnnotations \<and> (\<forall>l m. x \<noteq> Limit l m)"
    if "x \<in> set rest" for x
    using that where_clauses_cases [OF w] order_clauses_cases [OF o] jn [of x]
    by (auto simp: rest_def split: if_splits)
  let ?a = "render (Select cols)"
  let ?b = "concat (map render rest)"
  have q: "concat (map render clauses) = ?a @ (''FROM variants'' @ concat (map render ann)) @ ?b"
    by (simp add: c')
  have limit: "\<exists>c \<in> set clauses. CHR ''M'' \<in> set (caller_text c)"
    if s: "str_contains ''LIMIT'' (concat (map render clauses))"
  proof (rule ccontr)
    assume n: "\<not> (\<exists>c \<in> set clauses. CHR ''M'' \<in> set (caller_text c))"
    have a: "CHR ''M'' \<notin> set ?a"
      using render_M [of "Select cols"] n by (auto simp: c')
    have "CHR ''M'' \<notin> set (render x)" if "x \<in> set (ann @ rest)" for x
    proof -
      from that have "x \<noteq> From \<and> (\<forall>l m. x \<noteq> Limit l m)"
        using rest_kind [of x] by (auto simp: ann_def split: if_splits)
      moreover from that n have "CHR ''M'' \<notin> set (caller_text x)"
        by (auto simp: c')
      ultimately show ?thesis
        using render_M [of x] by blast
    qed
    then have b: "CHR ''M'' \<notin> set (concat (map render (ann @ rest)))"
      by auto
    have "concat (map render clauses) = ?a @ ''FROM variants'' @ concat (map render (ann @ rest))"
      by (simp add: c')
    with no_limit_across_from [OF a b] s show False
      by simp
  qed
  have offset: "\<exists>c \<in> set clauses. CHR ''F'' \<in> set (caller_text c)"
    if s: "str_contains ''OFFSET'' (concat (map render clauses))"
  proof (rule ccontr)
    assume n: "\<not> (\<exists>c \<in> set clauses. CHR ''F'' \<in> set (caller_text c))"
    have a: "CHR ''F'' \<notin> set ?a"
      using render_F [of "Select cols"] n by (auto simp: c')
    have "CHR ''F'' \<notin> set (render x)" if "x \<in> set rest" for x
      using that rest_kind [of x] render_F [of x] n by (auto simp: c')
    then have b: "CHR ''F'' \<notin> set ?b"
      by auto
    show False
    proof (cases "need_join_annotations (cols @ in_filters)")
      case True
      then have "concat (map render clauses)
                   = ?a @ (''FROM variants'' @ render JoinAnnotations) @ ?b"
        by (simp add: c' ann_def)
      moreover have "\<not> str_contains ''OFFSET''
                        (?a @ (''FROM variants'' @ render JoinAnnotations) @ ?b)"
        by (rule no_offset_across_fixed [OF a no_offset_after_from(2) [OF b]]) simp
      ultimately show False
        using s by simp
    next
      case False
      then have "concat (map render clauses) = ?a @ ''FROM variants'' @ ?b"
        by (simp add: c' ann_def)
      moreover have "\<not> str_contains ''OFFSET'' (?a @ ''FROM variants'' @ ?b)"
        by (rule no_offset_across_fixed [OF a no_offset_after_from(1) [OF b]]) simp
      ultimately show False
        using s by simp
    qed
  qed
  from limit offset show ?thesis
    by blast
qed

text \<open>
  C6. With \<open>limit=None\<close> \<open>build_query\<close> appends no LIMIT ... OFFSET clause, its clauses are
  the same for every offset, and a limit that is set adds exactly the text
  \<open>LIMIT n OFFSET m\<close> at the end of that SQL. The words LIMIT and OFFSET can be found in
  the SQL of \<open>limit=None\<close> only where a clause copied a text with the letter M, or F,
  from the arguments. A LIMIT ... OFFSET clause is among the clauses only when the limit
  is not None; it is then the last one.
\<close>

theorem limit_only_when_set:
  assumes "build_query_clauses flds source filters ob od limit offset gb dt sids = Inr clauses"
  shows "(limit = PNone \<longrightarrow> (\<forall>l m. Limit l m \<notin> set clauses)
            \<and> (\<forall>offset'. build_query_clauses flds source filters ob od PNone offset' gb dt sids
                   = Inr clauses)
            \<and> (\<forall>limit' offset'. py_truthy limit' \<longrightarrow>
                   build_query flds source filters ob od limit' offset' gb dt sids
                     = Inr (concat (map render clauses) @ '' LIMIT '' @ py_str limit'
                             @ '' OFFSET '' @ py_str offset'))
            \<and> (str_contains ''LIMIT'' (concat (map render clauses))
                 \<longrightarrow> (\<exists>c \<in> set clauses. CHR ''M'' \<in> set (caller_text c)))
            \<and> (str_contains ''OFFSET'' (concat (map render clauses))
                 \<longrightarrow> (\<exists>c \<in> set clauses. CHR ''F'' \<in> set (caller_text c))))
         \<and> ((\<exists>l m. Limit l m \<in> set clauses) \<longrightarrow>
               limit \<noteq> PNone
               \<and> clauses = butlast clauses @ [Limit (py_str limit) (py_str offset)])
         \<and> build_query flds source filters ob od limit offset gb dt sids
             = Inr (concat (map render clauses))"
proof -
  from assms obtain cols in_filters names joins wheres orders where
    j: "sample_joins names sids = Inr joins"
    and w: "where_clauses filters dt = Inr wheres"
    and o: "order_clauses ob od dt = Inr orders"
    and c: "clauses = [Select cols, From]
       @ (if need_join_annotations (cols @ in_filters) then [JoinAnnotations] else [])
       @ (if source \<noteq> ''variants'' then [JoinSelection source] else [])
       @ joins @ wheres @ (if gb \<noteq> [] then [GroupBy gb] else []) @ orders
       @ limit_clauses limit offset"
    by (rule build_query_clauses_Inr)
  define front where "front = [Select cols, From]
       @ (if need_join_annotations (cols @ in_filters) then [JoinAnnotations] else [])
       @ (if source \<noteq> ''variants'' then [JoinSelection source] else [])
       @ joins @ wheres @ (if gb \<noteq> [] then [GroupBy gb] else []) @ orders"
  have c': "clauses = front @ limit_clauses limit offset"
    by (simp add: c front_def)
  have nj: "Limit l m \<notin> set joins" for l m
    using joins_not_where [OF j, of "Limit l m"] by auto
  have nw: "Limit l m \<notin> set wheres" for l m
    using where_clauses_cases [OF w] by auto
  have no: "Limit l m \<notin> set orders" for l m
    using order_clauses_cases [OF o] by auto
  have front: "Limit l m \<notin> set front" for l m
    by (simp add: front_def nj nw no)
  have 1: "limit = PNone \<longrightarrow> (\<forall>l m. Limit l m \<notin> set clauses)"
    by (simp add: c' front limit_clauses_def)
  have 2: "limit = PNone \<longrightarrow>
             (\<forall>offset'. build_query_clauses flds source filters ob od PNone offset' gb dt sids
                   = Inr clauses)"
  proof (intro impI allI)
    fix offset'
    assume n: "limit = PNone"
    have "build_query_clauses flds source filters ob od PNone offset' gb dt sids
            = build_query_clauses flds source filters ob od PNone offset gb dt sids"
      by (simp add: build_query_clauses_def limit_clauses_def cong: sum.case_cong)
    with assms n show "build_query_clauses flds source filters ob od PNone offset' gb dt sids
                   = Inr clauses"
      by simp
  qed
  have 3: "(\<exists>l m. Limit l m \<in> set clauses) \<longrightarrow>
               limit \<noteq> PNone
               \<and> clauses = butlast clauses @ [Limit (py_str limit) (py_str offset)]"
  proof
    assume "\<exists>l m. Limit l m \<in> set clauses"
    then have t: "py_truthy limit"
      using front by (auto simp: c' limit_clauses_def split: if_splits)
    then have "clauses = front @ [Limit (py_str limit) (py_str offset)]"
      by (simp add: c' limit_clauses_def)
    with t show "limit \<noteq> PNone
               \<and> clauses = butlast clauses @ [Limit (py_str limit) (py_str offset)]"
      by (auto simp: butlast_append)
  qed
  have 4: "limit = PNone \<longrightarrow>
             (\<forall>limit' offset'. py_truthy limit' \<longrightarrow>
                   build_query flds source filters ob od limit' offset' gb dt sids
                     = Inr (concat (map render clauses) @ '' LIMIT '' @ py_str limit'
                             @ '' OFFSET '' @ py_str offset'))"
    using assms build_query_limit_suffix by blast
  have 5: "limit = PNone \<longrightarrow>
             (str_contains ''LIMIT'' (concat (map render clauses))
                 \<longrightarrow> (\<exists>c \<in> set clauses. CHR ''M'' \<in> set (caller_text c)))
             \<and> (str_contains ''OFFSET'' (concat (map render clauses))
                 \<longrightarrow> (\<exists>c \<in> set clauses. CHR ''F'' \<in> set (caller_text c)))"
    using assms limit_words_from_caller by blast
  from 1 2 3 4 5 build_query_concat [OF assms] show ?thesis
    by blast
qed

theorem limit_only_when_set_witness:
  "build_query [PStr ''chr''] ''variants'' (PDict []) PNone (PBool True) PNone (PInt 0) []
       Map.empty Map.empty
     = Inr ''SELECT `variants`.`id`,`chr` FROM variants''"
proof -
  have e: "build_query_clauses [PStr ''chr''] ''variants'' (PDict []) PNone (PBool True) PNone
             (PInt 0) [] Map.empty Map.empty
           = Inr [Select [''`variants`.`id`'', ''`chr`''], From]"
    by code_simp
  have r: "concat (map render [Select [''`variants`.`id`'', ''`chr`''], From])
           = ''SELECT `variants`.`id`,`chr` FROM variants''"
    by code_simp
  from limit_only_when_set [OF e] show ?thesis
    by (simp only: r)
qed

text \<open>
  C2 fails on the code. \<open>"id" not in col\<close> tests, on a string, whether \<open>id\<close> occurs in
  it: the requested field \<open>rsid\<close> is dropped from the SELECT list although it is not
  named \<open>id\<close>.
\<close>

theorem id_substring_dropped:
  "build_query [PStr ''chr'', PStr ''rsid''] ''variants'' (PDict []) PNone (PBool True)
       (PInt 50) (PInt 0) [] Map.empty Map.empty
     = Inr ''SELECT `variants`.`id`,`chr` FROM variants LIMIT 50 OFFSET 0''"
  by code_simp

text \<open>
  C3 fails on the code. \<open>"annotations" in col\<close> tests whether the word occurs in the SQL
  text of a column. The field \<open>annotations_count\<close> of the variants table resolves to
  \<open>`variants`.`annotations_count`\<close>: no resolved field references the annotations table,
  and the query has the LEFT JOIN to it all the same.
\<close>

theorem annotations_join_without_reference:
  "build_query_clauses [PStr ''annotations_count''] ''variants'' (PDict []) PNone (PBool True)
       PNone (PInt 0) [] (map_of [(''annotations_count'', ''variants'')]) Map.empty
     = Inr [Select [''`variants`.`id`'', ''`variants`.`annotations_count`''], From,
            JoinAnnotations]
   \<and> build_query [PStr ''annotations_count''] ''variants'' (PDict []) PNone (PBool True)
       PNone (PInt 0) [] (map_of [(''annotations_count'', ''variants'')]) Map.empty
     = Inr (''SELECT `variants`.`id`,`variants`.`annotations_count` FROM variants''
            @ '' LEFT JOIN annotations ON annotations.variant_id = variants.id'')
   \<and> \<not> references_table ''annotations'' ''`variants`.`id`''
   \<and> \<not> references_table ''annotations'' ''`variants`.`annotations_count`''"
  by code_simp

text \<open>
  C1 fails on the code, in two ways. The fields of the filter tree join \<open>all_fields\<close> as
  the texts \<open>fields_to_sql\<close> returned, so none of them is a tuple there: the genotype
  function field \<open>("sample", "alice", "gt")\<close> of a filter is rendered in the WHERE clause
  and gets no join, although \<open>alice\<close> is in the sample index. And the names are not made
  distinct: two selected fields on \<open>alice\<close> give two joins under the one alias
  \<open>`sample_alice`\<close>.
\<close>

theorem sample_joins_missed_and_repeated:
  "build_query_clauses [PStr ''chr''] ''variants''
       (condition_dict (PTuple [PStr ''sample'', PStr ''alice'', PStr ''gt'']) (PStr ''='') (PInt 1))
       PNone (PBool True) PNone (PInt 0) [] Map.empty (map_of [(''alice'', 3)])
     = Inr [Select [''`variants`.`id`'', ''`chr`''], From, Where ''`sample_alice`.`gt` = 1'']
   \<and> build_query_clauses
       [PTuple [PStr ''sample'', PStr ''alice'', PStr ''gt''],
        PTuple [PStr ''sample'', PStr ''alice'', PStr ''dp'']]
       ''variants'' (PDict []) PNone (PBool True) PNone (PInt 0) [] Map.empty
       (map_of [(''alice'', 3)])
     = Inr [Select [''`variants`.`id`'',
                    ''`sample_alice`.`gt` AS '' @ [sq] @ ''sample.alice.gt'' @ [sq],
                    ''`sample_alice`.`dp` AS '' @ [sq] @ ''sample.alice.dp'' @ [sq]],
            From, JoinSample ''alice'' 3, JoinSample ''alice'' 3]"
  by code_simp

section \<open>Properties of the commands\<close>

text \<open>
  What \<open>drop_cmd\<close> does with a known feature depends on the connection alone: it makes no
  test of its own, and an unknown feature raises \<open>VQLSyntaxError\<close>, the one error class of
  the commands, before any statement is run.
\<close>

lemma drop_cmd_after_delete:
  assumes "feature = ''selections'' \<or> feature = ''sets''"
    and "execute st conn (delete_statement feature name) = Inr conn1"
    and "commit st conn1 = Inr conn2"
  shows "drop_cmd st conn feature name = Inr (conn2, [(''success'', PBool True)])"
  using assms by (auto simp: drop_cmd_def execute_and_commit_def)

lemma drop_cmd_unknown_feature:
  assumes "feature \<noteq> ''selections''" and "feature \<noteq> ''sets''"
  shows "drop_cmd st conn feature name
           = Inl (VQLSyntaxError (feature @ '' doesn'' @ [sq] @ ''t exists''))"
  using assms by (simp add: drop_cmd_def)

text \<open>
  C9 fails on the code. \<open>drop_cmd\<close> writes the name into the statement as it is. For the
  name \<open>o'brien\<close> the statement is \<open>DELETE FROM selections WHERE name = 'o'brien'\<close>, where
  the quote of the name closes the SQL string; sqlite3 refuses it (near "brien": syntax
  error) and \<open>drop_cmd\<close> raises what the connection raises instead of returning
  \<open>{"success": True}\<close>.
\<close>

theorem drop_cmd_quote_in_name:
  assumes "execute st conn
             (''DELETE FROM selections WHERE name = '' @ [sq] @ ''o'' @ [sq] @ ''brien'' @ [sq])
           = Inl e"
  shows "drop_cmd st conn ''selections'' (''o'' @ [sq] @ ''brien'') = Inl e"
  using assms by (simp add: drop_cmd_def execute_and_commit_def delete_statement_def)

text \<open>On a connection that refuses the statement as sqlite3 does.\<close>

theorem drop_cmd_quote_in_name_witness:
  "drop_cmd
     (table_store\<lparr>execute := \<lambda>d statement.
         Inl (OperationalError (''near '' @ [dq] @ ''brien'' @ [dq] @ '': syntax error''))\<rparr>)
     \<lparr>db_fields = [], db_samples = [], db_selections = [(''other'', 5)], db_sets = []\<rparr>
     ''selections'' (''o'' @ [sq] @ ''brien'')
   = Inl (OperationalError (''near '' @ [dq] @ ''brien'' @ [dq] @ '': syntax error''))"
  using drop_cmd_quote_in_name
    [of "table_store\<lparr>execute := \<lambda>d statement.
           Inl (OperationalError (''near '' @ [dq] @ ''brien'' @ [dq] @ '': syntax error''))\<rparr>"
        "\<lparr>db_fields = [], db_samples = [], db_selections = [(''other'', 5)], db_sets = []\<rparr>"
        "OperationalError (''near '' @ [dq] @ ''brien'' @ [dq] @ '': syntax error'')"]
  by simp

text \<open>
  C8, as stated, fails: with a null target \<open>create_cmd\<close> raises nothing and returns the
  empty dict, and so does \<open>set_cmd\<close>.
\<close>

theorem null_target_counterexample:
  "create_cmd table_store
     \<lparr>db_fields = [(''chr'', ''variants'')], db_samples = [], db_selections = [], db_sets = []\<rparr>
     None ''variants'' (PDict [])
   = Inr (\<lparr>db_fields = [(''chr'', ''variants'')], db_samples = [], db_selections = [],
            db_sets = []\<rparr>, [])
   \<and> set_cmd table_store
     \<lparr>db_fields = [(''chr'', ''variants'')], db_samples = [], db_selections = [], db_sets = []\<rparr>
     None (Some ''A'') (Some ''B'') (Some ''+'')
   = Inr (\<lparr>db_fields = [(''chr'', ''variants'')], db_samples = [], db_selections = [],
            db_sets = []\<rparr>, [])"
  by (simp add: create_cmd_def set_cmd_def table_store_def)

text \<open>
  C8, amended. \<open>create_cmd\<close> with a null target raises no error of its own: once the two
  catalogs have been read it returns the empty dict and leaves the database as it was.
  \<open>set_cmd\<close> with a null target, first, second or operator returns the empty dict and
  leaves the database as it was.
\<close>

theorem null_arguments_no_op:
  "(get_fields st conn = Inr field_rows \<and> get_samples st conn = Inr sample_rows
      \<longrightarrow> create_cmd st conn None source filters = Inr (conn, []))
   \<and> (target = None \<or> first_name = None \<or> second_name = None \<or> operator = None
      \<longrightarrow> set_cmd st conn target first_name second_name operator = Inr (conn, []))"
  by (auto simp: create_cmd_def set_cmd_def split: option.splits)

theorem null_arguments_no_op_witness:
  "set_cmd table_store
     \<lparr>db_fields = [], db_samples = [], db_selections = [], db_sets = []\<rparr>
     (Some ''denovo'') (Some ''A'') None (Some ''+'')
   = Inr (\<lparr>db_fields = [], db_samples = [], db_selections = [], db_sets = []\<rparr>, [])
   \<and> create_cmd table_store
     \<lparr>db_fields = [], db_samples = [], db_selections = [], db_sets = []\<rparr>
     None ''variants'' (PDict [])
   = Inr (\<lparr>db_fields = [], db_samples = [], db_selections = [], db_sets = []\<rparr>, [])"
  using null_arguments_no_op
    [of table_store "\<lparr>db_fields = [], db_samples = [], db_selections = [], db_sets = []\<rparr>"
        "[]" "[]" "''variants''" "PDict []" "Some ''denovo''" "Some ''A''" None "Some ''+''"]
  by (simp add: table_store_def)

end
